theory Spec2Isabelle
  imports
    Complex_Main
    "HOL-Library.Word"
    "HOL-Library.List_Lexorder"
    "HOL-Library.Product_Lexorder"
begin

section \<open>The store of squeaknode: \<open>squeaknode/db/squeak_db.py\<close>\<close>

text \<open>
  \<open>SqueakDb\<close> is a thin layer of SQL statements over the tables of
  \<open>squeaknode/db/models.py\<close>. A table is modelled as the list of its rows, a nullable
  column as an \<open>option\<close>, a statement as a function from the store to a result and the
  store after it. The clock (\<open>timestamp_now_ms\<close>) is an argument of every operation
  that reads it.

  Byte strings are lists of bytes; the order on them is the lexicographic one
  (shorter prefix first), which is how both SQLite and PostgreSQL compare binary
  columns. Tuples are ordered lexicographically too, which is the meaning of the
  row-value comparison \<open>tuple_(a, b, c) < tuple_(x, y, z)\<close>.
\<close>

type_synonym bytes = "8 word list"

subsection \<open>Tables (\<open>models.py\<close>)\<close>

record squeak_row =
  sq_hash :: bytes
  sq_created_time_ms :: int
  sq_squeak :: bytes
  sq_hash_reply_sqk :: "bytes option"
  sq_hash_block :: bytes
  sq_n_block_height :: int
  sq_n_time :: int
  sq_author_address :: string
  sq_secret_key :: "bytes option"
  sq_block_time :: int
  sq_liked_time_ms :: "int option"
  sq_content :: "string option"

record profile_row =
  pf_profile_id :: int
  pf_created_time_ms :: int
  pf_profile_name :: string
  pf_private_key :: "bytes option"
  pf_address :: string
  pf_following :: bool
  pf_use_custom_price :: bool
  pf_custom_price_msat :: int
  pf_profile_image :: "bytes option"

record peer_row =
  pr_peer_id :: int
  pr_created_time_ms :: int
  pr_peer_name :: string
  pr_host :: string
  pr_port :: int
  pr_use_tor :: bool
  pr_autoconnect :: bool

record received_offer_row =
  ro_received_offer_id :: int
  ro_created_time_ms :: int
  ro_squeak_hash :: bytes
  ro_payment_hash :: bytes
  ro_nonce :: bytes
  ro_payment_point :: bytes
  ro_invoice_timestamp :: int
  ro_invoice_expiry :: int
  ro_price_msat :: int
  ro_payment_request :: string
  ro_destination :: string
  ro_lightning_host :: string
  ro_lightning_port :: int
  ro_peer_host :: string
  ro_peer_port :: int
  ro_peer_use_tor :: bool
  ro_paid :: bool

record sent_offer_row =
  so_sent_offer_id :: int
  so_created_time_ms :: int
  so_squeak_hash :: bytes
  so_payment_hash :: bytes
  so_secret_key :: bytes
  so_nonce :: bytes
  so_price_msat :: int
  so_payment_request :: string
  so_invoice_timestamp :: int
  so_invoice_expiry :: int
  so_peer_host :: string
  so_peer_port :: int
  so_peer_use_tor :: bool
  so_paid :: bool

text \<open>
  The store. \<open>peer_seq\<close> is the last value handed out for the autoincrement key of
  the \<open>peer\<close> table.
\<close>

record db =
  squeaks :: "squeak_row list"
  profiles :: "profile_row list"
  peers :: "peer_row list"
  received_offers :: "received_offer_row list"
  sent_offers :: "sent_offer_row list"
  peer_seq :: int

subsection \<open>Objects handed to the store\<close>

text \<open>
  \<open>CSqueak\<close> and \<open>CBlockHeader\<close> come from the squeak and bitcoin libraries; the
  record holds what \<open>insert_squeak\<close> reads from them.
\<close>

record CSqueak =
  GetHash :: bytes
  serialize :: bytes
  is_reply :: bool
  hashReplySqk :: bytes
  hashBlock :: bytes
  nBlockHeight :: int
  nTime :: int
  GetAddress :: string

record CBlockHeader =
  hdr_nTime :: int

text \<open>
  Modelled from the spec: \<open>squeaknode.core.squeaks.get_hash\<close> is not part of the
  sources at hand; the hash is "deterministic from the serialized squeak", the
  squeak object's own \<open>GetHash\<close>.
\<close>

definition get_hash :: "CSqueak \<Rightarrow> bytes" where
  "get_hash squeak = GetHash squeak"

datatype error = IntegrityError

subsection \<open>Squeak rows: insert, unlock, like, delete\<close>

definition insert_squeak ::
  "int \<Rightarrow> CSqueak \<Rightarrow> CBlockHeader \<Rightarrow> db \<Rightarrow> bytes option \<times> db" where
  "insert_squeak timestamp_now_ms squeak block_header d =
     (let ins = \<lparr> sq_hash = get_hash squeak,
                  sq_created_time_ms = timestamp_now_ms,
                  sq_squeak = serialize squeak,
                  sq_hash_reply_sqk =
                    (if is_reply squeak then Some (hashReplySqk squeak) else None),
                  sq_hash_block = hashBlock squeak,
                  sq_n_block_height = nBlockHeight squeak,
                  sq_n_time = nTime squeak,
                  sq_author_address = GetAddress squeak,
                  sq_secret_key = None,
                  sq_block_time = hdr_nTime block_header,
                  sq_liked_time_ms = None,
                  sq_content = None \<rparr>
      in if sq_hash ins \<in> set (map sq_hash (squeaks d))
         then (None, d)
         else (Some (sq_hash ins), d\<lparr>squeaks := squeaks d @ [ins]\<rparr>))"

definition set_squeak_decryption_key :: "bytes \<Rightarrow> bytes \<Rightarrow> string \<Rightarrow> db \<Rightarrow> db" where
  "set_squeak_decryption_key squeak_hash secret_key content d =
     d\<lparr>squeaks :=
         map (\<lambda>r. if sq_hash r = squeak_hash
                  then r\<lparr>sq_secret_key := Some secret_key, sq_content := Some content\<rparr>
                  else r)
             (squeaks d)\<rparr>"

definition set_squeak_liked :: "int \<Rightarrow> bytes \<Rightarrow> db \<Rightarrow> db" where
  "set_squeak_liked timestamp_now_ms squeak_hash d =
     d\<lparr>squeaks :=
         map (\<lambda>r. if sq_hash r = squeak_hash
                  then r\<lparr>sq_liked_time_ms := Some timestamp_now_ms\<rparr>
                  else r)
             (squeaks d)\<rparr>"

definition set_squeak_unliked :: "bytes \<Rightarrow> db \<Rightarrow> db" where
  "set_squeak_unliked squeak_hash d =
     d\<lparr>squeaks :=
         map (\<lambda>r. if sq_hash r = squeak_hash then r\<lparr>sq_liked_time_ms := None\<rparr> else r)
             (squeaks d)\<rparr>"

definition delete_squeak :: "bytes \<Rightarrow> db \<Rightarrow> db" where
  "delete_squeak squeak_hash d =
     d\<lparr>squeaks := filter (\<lambda>r. sq_hash r \<noteq> squeak_hash) (squeaks d)\<rparr>"

text \<open>
  The invariant of the squeak table that the data model states: a row has a secret
  key exactly when it has plaintext content.
\<close>

definition key_iff_content :: "squeak_row \<Rightarrow> bool" where
  "key_iff_content r = ((sq_secret_key r \<noteq> None) = (sq_content r \<noteq> None))"

definition squeaks_unlocked_inv :: "db \<Rightarrow> bool" where
  "squeaks_unlocked_inv d = list_all key_iff_content (squeaks d)"

subsection \<open>Objects returned by the store\<close>

record SqueakProfile =
  profile_id :: int
  profile_name :: string
  private_key :: "bytes option"
  profile_address :: string
  following :: bool
  use_custom_price :: bool
  custom_price_msat :: int
  profile_image :: "bytes option"

record SqueakEntry =
  squeak_hash :: bytes
  address :: string
  block_height :: int
  block_hash :: bytes
  block_time :: int
  squeak_time :: int
  reply_to :: "bytes option"
  is_unlocked :: bool
  liked_time_ms :: "int option"
  content :: "string option"
  squeak_profile :: "SqueakProfile option"

record PeerAddress =
  host :: string
  port :: int
  use_tor :: bool

record SqueakPeer =
  peer_id :: "int option"
  peer_name :: string
  peer_address :: PeerAddress
  autoconnect :: bool

record LightningAddressHostPort =
  ln_host :: string
  ln_port :: int

record ReceivedOffer =
  received_offer_id :: int
  offer_squeak_hash :: bytes
  payment_hash :: bytes
  nonce :: bytes
  payment_point :: bytes
  invoice_timestamp :: int
  invoice_expiry :: int
  price_msat :: int
  payment_request :: string
  destination :: string
  lightning_address :: LightningAddressHostPort
  offer_peer_address :: PeerAddress

text \<open>Python's truth value of an optional byte string: \<open>None\<close> and \<open>b''\<close> are false.\<close>

definition truthy :: "'a list option \<Rightarrow> bool" where
  "truthy v = (case v of None \<Rightarrow> False | Some b \<Rightarrow> b \<noteq> [])"

definition parse_squeak_profile :: "profile_row \<Rightarrow> SqueakProfile" where
  "parse_squeak_profile row =
     \<lparr> profile_id = pf_profile_id row,
       profile_name = pf_profile_name row,
       private_key = (if truthy (pf_private_key row) then pf_private_key row else None),
       profile_address = pf_address row,
       following = pf_following row,
       use_custom_price = pf_use_custom_price row,
       custom_price_msat = pf_custom_price_msat row,
       profile_image = pf_profile_image row \<rparr>"

definition try_parse_squeak_profile :: "profile_row option \<Rightarrow> SqueakProfile option" where
  "try_parse_squeak_profile row =
     (case row of None \<Rightarrow> None | Some p \<Rightarrow> Some (parse_squeak_profile p))"

definition parse_squeak_entry :: "squeak_row \<times> profile_row option \<Rightarrow> SqueakEntry" where
  "parse_squeak_entry row =
     (let is_locked = truthy (sq_secret_key (fst row));
          reply = (if truthy (sq_hash_reply_sqk (fst row))
                   then sq_hash_reply_sqk (fst row) else None);
          profile = try_parse_squeak_profile (snd row)
      in \<lparr> squeak_hash = sq_hash (fst row),
           address = sq_author_address (fst row),
           block_height = sq_n_block_height (fst row),
           block_hash = sq_hash_block (fst row),
           block_time = sq_block_time (fst row),
           squeak_time = sq_n_time (fst row),
           reply_to = reply,
           is_unlocked = is_locked,
           liked_time_ms = sq_liked_time_ms (fst row),
           content = sq_content (fst row),
           squeak_profile = profile \<rparr>)"

definition parse_received_offer :: "received_offer_row \<Rightarrow> ReceivedOffer" where
  "parse_received_offer row =
     \<lparr> received_offer_id = ro_received_offer_id row,
       offer_squeak_hash = ro_squeak_hash row,
       payment_hash = ro_payment_hash row,
       nonce = ro_nonce row,
       payment_point = ro_payment_point row,
       invoice_timestamp = ro_invoice_timestamp row,
       invoice_expiry = ro_invoice_expiry row,
       price_msat = ro_price_msat row,
       payment_request = ro_payment_request row,
       destination = ro_destination row,
       lightning_address =
         \<lparr> ln_host = ro_lightning_host row, ln_port = ro_lightning_port row \<rparr>,
       offer_peer_address =
         \<lparr> host = ro_peer_host row, port = ro_peer_port row,
           use_tor = ro_peer_use_tor row \<rparr> \<rparr>"

subsection \<open>Pieces of the SQL statements\<close>

text \<open>
  \<open>squeaks.outerjoin(profiles, profiles.c.address == squeaks.c.author_address)\<close>: every
  row of the left side with each profile of its author, or once with a null profile
  when there is none.
\<close>

definition outerjoin_profiles ::
  "('a \<Rightarrow> squeak_row) \<Rightarrow> 'a list \<Rightarrow> profile_row list \<Rightarrow> ('a \<times> profile_row option) list" where
  "outerjoin_profiles sq rows ps =
     concat (map (\<lambda>r.
        (case filter (\<lambda>p. pf_address p = sq_author_address (sq r)) ps of
           [] \<Rightarrow> [(r, None)]
         | m # ms \<Rightarrow> map (\<lambda>p. (r, Some p)) (m # ms))) rows)"

definition profile_is_following :: "profile_row option \<Rightarrow> bool" where
  "profile_is_following p = (case p of None \<Rightarrow> False | Some r \<Rightarrow> pf_following r = True)"

definition profile_has_no_private_key :: "profile_row option \<Rightarrow> bool" where
  "profile_has_no_private_key p =
     (case p of None \<Rightarrow> True | Some r \<Rightarrow> pf_private_key r = None)"

definition squeak_has_secret_key :: "squeak_row \<Rightarrow> bool" where
  "squeak_has_secret_key r = (sq_secret_key r \<noteq> None)"

definition squeak_is_not_liked :: "squeak_row \<Rightarrow> bool" where
  "squeak_is_not_liked r = (sq_liked_time_ms r = None)"

definition squeak_is_older_than_retention :: "int \<Rightarrow> int \<Rightarrow> squeak_row \<Rightarrow> bool" where
  "squeak_is_older_than_retention timestamp_now_ms interval_s r =
     (timestamp_now_ms > sq_created_time_ms r + interval_s * 1000)"

text \<open>
  The sort key of the listings, \<open>(n_block_height, n_time, hash)\<close>, and
  \<open>ORDER BY ... DESC\<close> on a key.
\<close>

definition squeak_key :: "squeak_row \<Rightarrow> int \<times> int \<times> bytes" where
  "squeak_key r = (sq_n_block_height r, sq_n_time r, sq_hash r)"

definition order_by_desc :: "('a \<Rightarrow> 'k::linorder) \<Rightarrow> 'a list \<Rightarrow> 'a list" where
  "order_by_desc k rows = rev (sort_key k rows)"

definition MAX_INT :: int where
  "MAX_INT = 999999999999"

definition MAX_HASH :: bytes where
  "MAX_HASH = replicate 32 0xFF"

text \<open>
  The three lines \<open>last_entry.block_height if last_entry else MAX_INT\<close>, ...: the bound
  of the keyset pagination.
\<close>

definition last_key :: "SqueakEntry option \<Rightarrow> int \<times> int \<times> bytes" where
  "last_key last_entry =
     (let last_block_height =
            (case last_entry of Some e \<Rightarrow> block_height e | None \<Rightarrow> MAX_INT);
          last_squeak_time =
            (case last_entry of Some e \<Rightarrow> squeak_time e | None \<Rightarrow> MAX_INT);
          last_squeak_hash =
            (case last_entry of Some e \<Rightarrow> squeak_hash e | None \<Rightarrow> MAX_HASH)
      in (last_block_height, last_squeak_time, last_squeak_hash))"

subsection \<open>Listings\<close>

text \<open>
  \<open>.limit(limit)\<close>: \<open>limit\<close> is a Python \<open>int\<close> that reaches the \<open>LIMIT\<close> of the statement
  unchecked. A count keeps the first rows; a negative \<open>LIMIT\<close> is no limit at all (so
  SQLite, the backend \<open>models.py\<close> declares its tables for).
\<close>

definition sql_limit :: "int \<Rightarrow> 'a list \<Rightarrow> 'a list" where
  "sql_limit limit rows = (if limit < 0 then rows else take (nat limit) rows)"

definition get_timeline_squeak_entries ::
  "int \<Rightarrow> SqueakEntry option \<Rightarrow> db \<Rightarrow> SqueakEntry list" where
  "get_timeline_squeak_entries limit last_entry d =
     (let s = outerjoin_profiles id (squeaks d) (profiles d);
          s = filter (\<lambda>row. profile_is_following (snd row)) s;
          s = filter (\<lambda>row. squeak_key (fst row) < last_key last_entry) s;
          s = order_by_desc (\<lambda>row. squeak_key (fst row)) s;
          rows = sql_limit limit s
      in map parse_squeak_entry rows)"

text \<open>The sort key of an entry that the store has returned.\<close>

definition entry_key :: "SqueakEntry \<Rightarrow> int \<times> int \<times> bytes" where
  "entry_key e = (block_height e, squeak_time e, squeak_hash e)"

text \<open>
  The caller's side of the pagination, in the words of the specification: "the caller
  passes the last entry it saw", page after page, and the pages are concatenated.
  \<open>timeline_pages n\<close> is the concatenation of up to \<open>n\<close> successive pages.
\<close>

fun timeline_pages :: "nat \<Rightarrow> int \<Rightarrow> SqueakEntry option \<Rightarrow> db \<Rightarrow> SqueakEntry list" where
  "timeline_pages 0 limit last_entry d = []"
| "timeline_pages (Suc n) limit last_entry d =
     (let page = get_timeline_squeak_entries limit last_entry d
      in if page = [] then []
         else page @ timeline_pages n limit (Some (last page)) d)"

subsection \<open>Text search\<close>

text \<open>
  \<open>content.ilike(pattern)\<close>: SQL \<open>LIKE\<close> on the lower-cased operands. In a pattern
  \<open>%\<close> stands for any run of characters and \<open>_\<close> for any one character.
\<close>

definition lower_char :: "char \<Rightarrow> char" where
  "lower_char c =
     (if (65::nat) \<le> of_char c \<and> of_char c \<le> (90::nat)
      then char_of (of_char c + (32::nat)) else c)"

definition lower :: "string \<Rightarrow> string" where
  "lower s = map lower_char s"

fun like :: "string \<Rightarrow> string \<Rightarrow> bool" where
  "like [] [] = True"
| "like [] (c # t) = False"
| "like (p # ps) [] = (p = CHR ''%'' \<and> like ps [])"
| "like (p # ps) (c # t) =
     (if p = CHR ''%'' then like ps (c # t) \<or> like (p # ps) t
      else (p = CHR ''_'' \<or> p = c) \<and> like ps t)"

definition ilike :: "string option \<Rightarrow> string \<Rightarrow> bool" where
  "ilike column pattern =
     (case column of None \<Rightarrow> False | Some text \<Rightarrow> like (lower pattern) (lower text))"

definition get_squeak_entries_for_text_search ::
  "string \<Rightarrow> int \<Rightarrow> SqueakEntry option \<Rightarrow> db \<Rightarrow> SqueakEntry list" where
  "get_squeak_entries_for_text_search search_text limit last_entry d =
     (let s = outerjoin_profiles id (squeaks d) (profiles d);
          s = filter (\<lambda>row. ilike (sq_content (fst row)) (''%'' @ search_text @ ''%'')) s;
          s = filter (\<lambda>row. squeak_key (fst row) < last_key last_entry) s;
          s = order_by_desc (\<lambda>row. squeak_key (fst row)) s;
          rows = sql_limit limit s
      in map parse_squeak_entry rows)"

text \<open>
  What the specification asks of the search, in its own words: the search text is a
  substring of the content, compared case-insensitively.
\<close>

fun is_prefix :: "string \<Rightarrow> string \<Rightarrow> bool" where
  "is_prefix [] t = True"
| "is_prefix (a # s) [] = False"
| "is_prefix (a # s) (b # t) = (a = b \<and> is_prefix s t)"

fun is_substring :: "string \<Rightarrow> string \<Rightarrow> bool" where
  "is_substring s [] = (s = [])"
| "is_substring s (b # t) = (is_prefix s (b # t) \<or> is_substring s t)"

definition spec_text_match :: "string \<Rightarrow> string \<Rightarrow> bool" where
  "spec_text_match search_text text = is_substring (lower search_text) (lower text)"

subsection \<open>Thread ancestors\<close>

text \<open>
  The recursive common table expression of \<open>get_thread_ancestor_squeak_entries\<close>. Its
  rows are \<open>(hash, depth)\<close>; the hash of a row of the recursive part is a
  \<open>hash_reply_sqk\<close> and may be null. The database evaluates it by iteration: the rows
  of the last round are joined with the squeak table to give the next round, until a
  round is empty. A round that is never empty is a query that never returns:
  \<open>None\<close>.
\<close>

type_synonym ancestor_row = "bytes option \<times> int"

definition ancestors_initial :: "bytes \<Rightarrow> squeak_row list \<Rightarrow> ancestor_row list" where
  "ancestors_initial hash sqs =
     map (\<lambda>r. (Some (sq_hash r), 0)) (filter (\<lambda>r. sq_hash r = hash) sqs)"

definition ancestors_step :: "squeak_row list \<Rightarrow> ancestor_row list \<Rightarrow> ancestor_row list" where
  "ancestors_step sqs w =
     concat (map (\<lambda>a.
        map (\<lambda>r. (sq_hash_reply_sqk r, snd a + 1))
            (filter (\<lambda>r. Some (sq_hash r) = fst a) sqs)) w)"

partial_function (option) ancestors_cte ::
  "squeak_row list \<Rightarrow> ancestor_row list \<Rightarrow> ancestor_row list option" where
  "ancestors_cte sqs w =
     (if w = [] then Some []
      else Option.bind (ancestors_cte sqs (ancestors_step sqs w)) (\<lambda>rest. Some (w @ rest)))"

definition join_ancestors ::
  "squeak_row list \<Rightarrow> ancestor_row list \<Rightarrow> (squeak_row \<times> ancestor_row) list" where
  "join_ancestors sqs ancestors =
     concat (map (\<lambda>r. map (\<lambda>a. (r, a)) (filter (\<lambda>a. fst a = Some (sq_hash r)) ancestors))
                 sqs)"

definition get_thread_ancestor_squeak_entries :: "bytes \<Rightarrow> db \<Rightarrow> SqueakEntry list option" where
  "get_thread_ancestor_squeak_entries hash d =
     (case ancestors_cte (squeaks d) (ancestors_initial hash (squeaks d)) of
        None \<Rightarrow> None
      | Some ancestors \<Rightarrow>
          (let s = outerjoin_profiles fst (join_ancestors (squeaks d) ancestors) (profiles d);
               rows = order_by_desc (\<lambda>row. snd (snd (fst row))) s
           in Some (map (\<lambda>row. parse_squeak_entry (fst (fst row), snd row)) rows)))"

subsection \<open>Lookup and retention\<close>

definition lookup_squeaks ::
  "string list \<Rightarrow> int \<Rightarrow> int \<Rightarrow> bytes \<Rightarrow> bool \<Rightarrow> db \<Rightarrow> bytes list" where
  "lookup_squeaks addresses min_block max_block reply_to_hash include_locked d =
     (let s = squeaks d;
          s = (if addresses \<noteq> []
               then filter (\<lambda>r. sq_author_address r \<in> set addresses) s else s);
          s = (if min_block \<noteq> 0
               then filter (\<lambda>r. sq_n_block_height r \<ge> min_block) s else s);
          s = (if max_block \<noteq> 0
               then filter (\<lambda>r. sq_n_block_height r \<le> max_block) s else s);
          s = (if reply_to_hash \<noteq> []
               then filter (\<lambda>r. sq_hash_reply_sqk r = Some reply_to_hash) s else s);
          s = (if \<not> include_locked then filter squeak_has_secret_key s else s);
          rows = order_by_desc squeak_key s
      in map sq_hash rows)"

definition get_old_squeaks_to_delete :: "int \<Rightarrow> int \<Rightarrow> db \<Rightarrow> bytes list" where
  "get_old_squeaks_to_delete timestamp_now_ms interval_s d =
     (let s = outerjoin_profiles id (squeaks d) (profiles d);
          s = filter (\<lambda>row. squeak_is_older_than_retention timestamp_now_ms interval_s
                              (fst row)) s;
          s = filter (\<lambda>row. profile_has_no_private_key (snd row)) s;
          rows = filter (\<lambda>row. squeak_is_not_liked (fst row)) s
      in map (\<lambda>row. sq_hash (fst row)) rows)"

text \<open>
  The retention rule in the words of the specification: the author profile is locally
  owned when the store holds a profile of the author's address with a private key.
\<close>

definition locally_owned :: "db \<Rightarrow> squeak_row \<Rightarrow> bool" where
  "locally_owned d r =
     list_ex (\<lambda>p. pf_address p = sq_author_address r \<and> pf_private_key p \<noteq> None)
             (profiles d)"

definition spec_eligible_for_deletion :: "int \<Rightarrow> int \<Rightarrow> db \<Rightarrow> squeak_row \<Rightarrow> bool" where
  "spec_eligible_for_deletion now retention_s d r =
     (sq_created_time_ms r + retention_s * 1000 \<le> now
      \<and> sq_liked_time_ms r = None \<and> \<not> locally_owned d r)"

definition older_eligible_for_deletion :: "int \<Rightarrow> int \<Rightarrow> db \<Rightarrow> squeak_row \<Rightarrow> bool" where
  "older_eligible_for_deletion now retention_s d r =
     (sq_created_time_ms r + retention_s * 1000 < now
      \<and> sq_liked_time_ms r = None \<and> \<not> locally_owned d r)"

subsection \<open>Peers\<close>

text \<open>
  \<open>insert_peer\<close> has no handler around the insert: a violation of the constraint
  \<open>uq_peer_host_port\<close> leaves it as \<open>sqlalchemy.exc.IntegrityError\<close>, and the statement
  has changed nothing.
\<close>

definition insert_peer :: "int \<Rightarrow> SqueakPeer \<Rightarrow> db \<Rightarrow> (error + int) \<times> db" where
  "insert_peer timestamp_now_ms squeak_peer d =
     (let new_id = peer_seq d + 1;
          ins = \<lparr> pr_peer_id = new_id,
                  pr_created_time_ms = timestamp_now_ms,
                  pr_peer_name = peer_name squeak_peer,
                  pr_host = host (peer_address squeak_peer),
                  pr_port = port (peer_address squeak_peer),
                  pr_use_tor = use_tor (peer_address squeak_peer),
                  pr_autoconnect = autoconnect squeak_peer \<rparr>
      in if list_ex (\<lambda>p. pr_host p = pr_host ins \<and> pr_port p = pr_port ins) (peers d)
         then (Inl IntegrityError, d)
         else (Inr new_id, d\<lparr>peers := peers d @ [ins], peer_seq := new_id\<rparr>))"

subsection \<open>Offers\<close>

text \<open>\<open>self.timestamp_now_ms / 1000\<close> is Python's true division: seconds, with a fraction.\<close>

definition timestamp_now_s :: "int \<Rightarrow> rat" where
  "timestamp_now_s timestamp_now_ms = of_int timestamp_now_ms / 1000"

definition received_offer_should_be_deleted :: "int \<Rightarrow> received_offer_row \<Rightarrow> bool" where
  "received_offer_should_be_deleted timestamp_now_ms r =
     (let expire_time = ro_invoice_timestamp r + ro_invoice_expiry r
      in timestamp_now_s timestamp_now_ms \<ge> of_int expire_time)"

definition received_offer_is_not_paid :: "received_offer_row \<Rightarrow> bool" where
  "received_offer_is_not_paid r = (ro_paid r = False)"

definition received_offer_is_not_expired :: "int \<Rightarrow> received_offer_row \<Rightarrow> bool" where
  "received_offer_is_not_expired timestamp_now_ms r =
     (let expire_time = ro_invoice_timestamp r + ro_invoice_expiry r
      in timestamp_now_s timestamp_now_ms < of_int expire_time)"

definition get_received_offers :: "int \<Rightarrow> bytes \<Rightarrow> db \<Rightarrow> ReceivedOffer list" where
  "get_received_offers timestamp_now_ms hash d =
     (let s = filter (\<lambda>r. ro_squeak_hash r = hash) (received_offers d);
          s = filter received_offer_is_not_paid s;
          rows = filter (received_offer_is_not_expired timestamp_now_ms) s
      in map parse_received_offer rows)"

definition delete_expired_received_offers :: "int \<Rightarrow> db \<Rightarrow> nat \<times> db" where
  "delete_expired_received_offers timestamp_now_ms d =
     (let deleted_offers =
            length (filter (received_offer_should_be_deleted timestamp_now_ms)
                           (received_offers d))
      in (deleted_offers,
          d\<lparr>received_offers :=
              filter (\<lambda>r. \<not> received_offer_should_be_deleted timestamp_now_ms r)
                     (received_offers d)\<rparr>))"

definition sent_offer_should_be_deleted :: "int \<Rightarrow> int \<Rightarrow> sent_offer_row \<Rightarrow> bool" where
  "sent_offer_should_be_deleted timestamp_now_ms interval_s r =
     (let expire_time = so_invoice_timestamp r + so_invoice_expiry r + interval_s
      in timestamp_now_s timestamp_now_ms \<ge> of_int expire_time)"

definition delete_expired_sent_offers :: "int \<Rightarrow> int \<Rightarrow> db \<Rightarrow> nat \<times> db" where
  "delete_expired_sent_offers timestamp_now_ms interval_s d =
     (let deleted_sent_offers =
            length (filter (sent_offer_should_be_deleted timestamp_now_ms interval_s)
                           (sent_offers d))
      in (deleted_sent_offers,
          d\<lparr>sent_offers :=
              filter (\<lambda>r. \<not> sent_offer_should_be_deleted timestamp_now_ms interval_s r)
                     (sent_offers d)\<rparr>))"

subsection \<open>Constraints of the schema\<close>

text \<open>
  \<open>models.py\<close>: \<open>hash\<close> is the primary key of \<open>squeak\<close>, \<open>address\<close> is unique in
  \<open>profile\<close>, \<open>(host, port)\<close> is unique in \<open>peer\<close>.
\<close>

definition db_constraints :: "db \<Rightarrow> bool" where
  "db_constraints d =
     (distinct (map sq_hash (squeaks d))
      \<and> distinct (map pf_address (profiles d))
      \<and> distinct (map (\<lambda>p. (pr_host p, pr_port p)) (peers d)))"

text \<open>An example store and squeak, used to instantiate the theorems below.\<close>

definition empty_db :: db where
  "empty_db = \<lparr> squeaks = [], profiles = [], peers = [], received_offers = [],
                sent_offers = [], peer_seq = 0 \<rparr>"

definition squeak_a :: CSqueak where
  "squeak_a = \<lparr> GetHash = [0x0A], serialize = [0x01, 0x02], is_reply = False,
                 hashReplySqk = [], hashBlock = [0xB0], nBlockHeight = 5, nTime = 100,
                 GetAddress = ''alice'' \<rparr>"

definition header_a :: CBlockHeader where
  "header_a = \<lparr> hdr_nTime = 90 \<rparr>"

definition offer_a :: received_offer_row where
  "offer_a = \<lparr> ro_received_offer_id = 1, ro_created_time_ms = 1000000,
                ro_squeak_hash = [0x0A], ro_payment_hash = [0x01], ro_nonce = [0x02],
                ro_payment_point = [0x03], ro_invoice_timestamp = 1000,
                ro_invoice_expiry = 60, ro_price_msat = 777, ro_payment_request = ''lnbc1'',
                ro_destination = ''02ab'', ro_lightning_host = ''ln.example'',
                ro_lightning_port = 9735, ro_peer_host = ''fake_host'', ro_peer_port = 5678,
                ro_peer_use_tor = False, ro_paid = False \<rparr>"

definition offer_b :: received_offer_row where
  "offer_b = offer_a \<lparr> ro_received_offer_id := 2, ro_payment_hash := [0x11],
                       ro_invoice_timestamp := 2000 \<rparr>"

definition sent_offer_a :: sent_offer_row where
  "sent_offer_a = \<lparr> so_sent_offer_id = 1, so_created_time_ms = 1000000,
                     so_squeak_hash = [0x0A], so_payment_hash = [0x01],
                     so_secret_key = [0x77], so_nonce = [0x02], so_price_msat = 777,
                     so_payment_request = ''lnbc1'', so_invoice_timestamp = 1000,
                     so_invoice_expiry = 60, so_peer_host = ''fake_host'',
                     so_peer_port = 5678, so_peer_use_tor = False, so_paid = False \<rparr>"

definition offers_db :: db where
  "offers_db = empty_db \<lparr> received_offers := [offer_a, offer_b],
                          sent_offers := [sent_offer_a] \<rparr>"

definition peer_a :: SqueakPeer where
  "peer_a = \<lparr> peer_id = None, peer_name = ''fake_peer_name'',
               peer_address = \<lparr> host = ''fake_host'', port = 5678, use_tor = False \<rparr>,
               autoconnect = False \<rparr>"

definition peer_b :: SqueakPeer where
  "peer_b = \<lparr> peer_id = None, peer_name = ''other_name'',
               peer_address = \<lparr> host = ''fake_host'', port = 5678, use_tor = True \<rparr>,
               autoconnect = True \<rparr>"

definition row_a :: squeak_row where
  "row_a = \<lparr> sq_hash = [0x0A], sq_created_time_ms = 1000, sq_squeak = [0x01, 0x02],
              sq_hash_reply_sqk = None, sq_hash_block = [0xB0], sq_n_block_height = 5,
              sq_n_time = 100, sq_author_address = ''alice'', sq_secret_key = Some [0x77],
              sq_block_time = 90, sq_liked_time_ms = None, sq_content = Some ''abc'' \<rparr>"

definition row_b :: squeak_row where
  "row_b = row_a \<lparr> sq_hash := [0x0B], sq_n_block_height := 7,
                   sq_author_address := ''bob'', sq_content := Some ''Hello World'' \<rparr>"

definition row_c :: squeak_row where
  "row_c = row_a \<lparr> sq_hash := [0x0C], sq_n_block_height := 7, sq_n_time := 120,
                   sq_hash_reply_sqk := Some [0x0B] \<rparr>"

definition profile_alice :: profile_row where
  "profile_alice = \<lparr> pf_profile_id = 1, pf_created_time_ms = 500,
                      pf_profile_name = ''alice'', pf_private_key = Some [0x99],
                      pf_address = ''alice'', pf_following = True,
                      pf_use_custom_price = False, pf_custom_price_msat = 0,
                      pf_profile_image = None \<rparr>"

definition profile_bob :: profile_row where
  "profile_bob = profile_alice \<lparr> pf_profile_id := 2, pf_profile_name := ''bob'',
                                 pf_private_key := None, pf_address := ''bob'' \<rparr>"

definition squeaks_db :: db where
  "squeaks_db = empty_db \<lparr> squeaks := [row_a, row_b, row_c],
                           profiles := [profile_alice, profile_bob] \<rparr>"

text \<open>A squeak row that names itself as the squeak it replies to.\<close>

definition row_loop :: squeak_row where
  "row_loop = row_a \<lparr> sq_hash := [0x01], sq_hash_reply_sqk := Some [0x01] \<rparr>"

definition loop_db :: db where
  "loop_db = empty_db \<lparr> squeaks := [row_loop] \<rparr>"

section \<open>Theorems\<close>

subsection \<open>Unlocking keeps secret key and content together\<close>

lemma list_all_map_preserved:
  "list_all P xs \<Longrightarrow> (\<And>r. P r \<Longrightarrow> P (f r)) \<Longrightarrow> list_all P (map f xs)"
  by (induction xs) simp_all

lemma inv_insert_squeak:
  "squeaks_unlocked_inv d \<Longrightarrow> squeaks_unlocked_inv (snd (insert_squeak now s h d))"
  by (simp add: insert_squeak_def Let_def squeaks_unlocked_inv_def key_iff_content_def)

lemma inv_set_squeak_decryption_key:
  assumes "squeaks_unlocked_inv d"
  shows "squeaks_unlocked_inv (set_squeak_decryption_key x k c d)"
proof -
  have "list_all key_iff_content
          (map (\<lambda>r. if sq_hash r = x
                     then r\<lparr>sq_secret_key := Some k, sq_content := Some c\<rparr> else r)
               (squeaks d))"
  proof (rule list_all_map_preserved)
    show "list_all key_iff_content (squeaks d)"
      using assms by (simp add: squeaks_unlocked_inv_def)
  next
    fix r assume "key_iff_content r"
    then show "key_iff_content
        (if sq_hash r = x then r\<lparr>sq_secret_key := Some k, sq_content := Some c\<rparr> else r)"
      by (simp add: key_iff_content_def)
  qed
  then show ?thesis
    by (simp add: squeaks_unlocked_inv_def set_squeak_decryption_key_def)
qed

lemma inv_set_squeak_liked:
  assumes "squeaks_unlocked_inv d"
  shows "squeaks_unlocked_inv (set_squeak_liked now x d)"
proof -
  have "list_all key_iff_content
          (map (\<lambda>r. if sq_hash r = x then r\<lparr>sq_liked_time_ms := Some now\<rparr> else r)
               (squeaks d))"
  proof (rule list_all_map_preserved)
    show "list_all key_iff_content (squeaks d)"
      using assms by (simp add: squeaks_unlocked_inv_def)
  next
    fix r assume "key_iff_content r"
    then show "key_iff_content
        (if sq_hash r = x then r\<lparr>sq_liked_time_ms := Some now\<rparr> else r)"
      by (simp add: key_iff_content_def)
  qed
  then show ?thesis
    by (simp add: squeaks_unlocked_inv_def set_squeak_liked_def)
qed

lemma inv_set_squeak_unliked:
  assumes "squeaks_unlocked_inv d"
  shows "squeaks_unlocked_inv (set_squeak_unliked x d)"
proof -
  have "list_all key_iff_content
          (map (\<lambda>r. if sq_hash r = x then r\<lparr>sq_liked_time_ms := None\<rparr> else r)
               (squeaks d))"
  proof (rule list_all_map_preserved)
    show "list_all key_iff_content (squeaks d)"
      using assms by (simp add: squeaks_unlocked_inv_def)
  next
    fix r assume "key_iff_content r"
    then show "key_iff_content
        (if sq_hash r = x then r\<lparr>sq_liked_time_ms := None\<rparr> else r)"
      by (simp add: key_iff_content_def)
  qed
  then show ?thesis
    by (simp add: squeaks_unlocked_inv_def set_squeak_unliked_def)
qed

lemma inv_delete_squeak:
  "squeaks_unlocked_inv d \<Longrightarrow> squeaks_unlocked_inv (delete_squeak x d)"
  by (simp add: squeaks_unlocked_inv_def delete_squeak_def list_all_iff)

lemma insert_squeak_new_row:
  "get_hash s \<notin> set (map sq_hash (squeaks d)) \<Longrightarrow>
     \<exists>r. squeaks (snd (insert_squeak now s h d)) = squeaks d @ [r]
       \<and> sq_hash r = get_hash s \<and> sq_secret_key r = None \<and> sq_content r = None"
  by (simp add: insert_squeak_def Let_def)

lemma set_squeak_decryption_key_rows:
  "list_all (\<lambda>r. sq_hash r = x \<longrightarrow> sq_secret_key r = Some k \<and> sq_content r = Some c)
     (map (\<lambda>r. if sq_hash r = x
                then r\<lparr>sq_secret_key := Some k, sq_content := Some c\<rparr> else r) xs)"
  by (induction xs) simp_all

lemma squeaks_set_squeak_decryption_key:
  "squeaks (set_squeak_decryption_key x k c d) =
     map (\<lambda>r. if sq_hash r = x
               then r\<lparr>sq_secret_key := Some k, sq_content := Some c\<rparr> else r) (squeaks d)"
  by (simp add: set_squeak_decryption_key_def)

lemma set_squeak_decryption_key_both:
  "\<forall>r \<in> set (squeaks (set_squeak_decryption_key x k c d)).
     sq_hash r = x \<longrightarrow> sq_secret_key r = Some k \<and> sq_content r = Some c"
proof -
  have "list_all (\<lambda>r. sq_hash r = x \<longrightarrow> sq_secret_key r = Some k \<and> sq_content r = Some c)
          (squeaks (set_squeak_decryption_key x k c d))"
    unfolding squeaks_set_squeak_decryption_key by (rule set_squeak_decryption_key_rows)
  then show ?thesis unfolding list_all_iff .
qed

lemma insert_squeak_stored:
  "get_hash s \<in> set (map sq_hash (squeaks d)) \<Longrightarrow> snd (insert_squeak now s h d) = d"
  by (simp add: insert_squeak_def Let_def)

lemma set_squeak_decryption_key_other_tables:
  "profiles (set_squeak_decryption_key x k c d) = profiles d
   \<and> peers (set_squeak_decryption_key x k c d) = peers d
   \<and> received_offers (set_squeak_decryption_key x k c d) = received_offers d
   \<and> sent_offers (set_squeak_decryption_key x k c d) = sent_offers d"
  by (simp add: set_squeak_decryption_key_def)

lemma set_squeak_decryption_key_columns:
  "map sq_hash (map (\<lambda>r. if sq_hash r = x
                then r\<lparr>sq_secret_key := Some k, sq_content := Some c\<rparr> else r) xs)
     = map sq_hash xs
   \<and> map sq_secret_key (map (\<lambda>r. if sq_hash r = x
                then r\<lparr>sq_secret_key := Some k, sq_content := Some c\<rparr> else r) xs)
     = map (\<lambda>r. if sq_hash r = x then Some k else sq_secret_key r) xs
   \<and> map sq_content (map (\<lambda>r. if sq_hash r = x
                then r\<lparr>sq_secret_key := Some k, sq_content := Some c\<rparr> else r) xs)
     = map (\<lambda>r. if sq_hash r = x then Some c else sq_content r) xs"
  by (induction xs) simp_all

lemma liked_columns:
  "map sq_secret_key (map (\<lambda>r. if sq_hash r = x then r\<lparr>sq_liked_time_ms := t\<rparr> else r) xs)
     = map sq_secret_key xs
   \<and> map sq_content (map (\<lambda>r. if sq_hash r = x then r\<lparr>sq_liked_time_ms := t\<rparr> else r) xs)
     = map sq_content xs
   \<and> map sq_hash (map (\<lambda>r. if sq_hash r = x then r\<lparr>sq_liked_time_ms := t\<rparr> else r) xs)
     = map sq_hash xs"
  by (induction xs) simp_all

lemma squeaks_set_squeak_liked:
  "squeaks (set_squeak_liked now x d) =
     map (\<lambda>r. if sq_hash r = x then r\<lparr>sq_liked_time_ms := Some now\<rparr> else r) (squeaks d)"
  by (simp add: set_squeak_liked_def)

lemma squeaks_set_squeak_unliked:
  "squeaks (set_squeak_unliked x d) =
     map (\<lambda>r. if sq_hash r = x then r\<lparr>sq_liked_time_ms := None\<rparr> else r) (squeaks d)"
  by (simp add: set_squeak_unliked_def)

lemma squeaks_delete_squeak:
  "squeaks (delete_squeak x d) = filter (\<lambda>r. sq_hash r \<noteq> x) (squeaks d)"
  by (simp add: delete_squeak_def)

text \<open>
  C1. A squeak row has a secret key if and only if it has plaintext content, and
  every operation on the squeak table keeps it so. What the operations do to the
  table is fixed as well: \<open>insert_squeak\<close> of a hash that is not stored appends one row,
  with neither secret key nor content, and of a stored hash changes nothing;
  \<open>set_squeak_decryption_key\<close> gives the rows of the hash the secret key and the
  content, both in the one update, and leaves every other row, every other column
  and the other tables as they were; liking and unliking keep the hash, secret key
  and content of every row; \<open>delete_squeak\<close> removes the rows of the hash. The empty
  store satisfies the invariant.
\<close>

theorem secret_key_iff_content:
  assumes "squeaks_unlocked_inv d"
  shows "squeaks_unlocked_inv (snd (insert_squeak now s h d))
       \<and> squeaks_unlocked_inv (set_squeak_decryption_key x k c d)
       \<and> squeaks_unlocked_inv (set_squeak_liked now x d)
       \<and> squeaks_unlocked_inv (set_squeak_unliked x d)
       \<and> squeaks_unlocked_inv (delete_squeak x d)
       \<and> squeaks_unlocked_inv empty_db
       \<and> (get_hash s \<notin> set (map sq_hash (squeaks d)) \<longrightarrow>
            (\<exists>r. squeaks (snd (insert_squeak now s h d)) = squeaks d @ [r]
               \<and> sq_hash r = get_hash s \<and> sq_secret_key r = None \<and> sq_content r = None))
       \<and> (get_hash s \<in> set (map sq_hash (squeaks d)) \<longrightarrow>
            snd (insert_squeak now s h d) = d)
       \<and> (\<forall>r \<in> set (squeaks (set_squeak_decryption_key x k c d)).
            sq_hash r = x \<longrightarrow> sq_secret_key r = Some k \<and> sq_content r = Some c)
       \<and> squeaks (set_squeak_decryption_key x k c d) =
            map (\<lambda>r. if sq_hash r = x
                      then r\<lparr>sq_secret_key := Some k, sq_content := Some c\<rparr> else r)
                (squeaks d)
       \<and> map sq_hash (squeaks (set_squeak_decryption_key x k c d)) = map sq_hash (squeaks d)
       \<and> map sq_secret_key (squeaks (set_squeak_decryption_key x k c d)) =
            map (\<lambda>r. if sq_hash r = x then Some k else sq_secret_key r) (squeaks d)
       \<and> map sq_content (squeaks (set_squeak_decryption_key x k c d)) =
            map (\<lambda>r. if sq_hash r = x then Some c else sq_content r) (squeaks d)
       \<and> profiles (set_squeak_decryption_key x k c d) = profiles d
       \<and> peers (set_squeak_decryption_key x k c d) = peers d
       \<and> received_offers (set_squeak_decryption_key x k c d) = received_offers d
       \<and> sent_offers (set_squeak_decryption_key x k c d) = sent_offers d
       \<and> map sq_secret_key (squeaks (set_squeak_liked now x d))
            = map sq_secret_key (squeaks d)
       \<and> map sq_content (squeaks (set_squeak_liked now x d)) = map sq_content (squeaks d)
       \<and> map sq_hash (squeaks (set_squeak_liked now x d)) = map sq_hash (squeaks d)
       \<and> map sq_secret_key (squeaks (set_squeak_unliked x d))
            = map sq_secret_key (squeaks d)
       \<and> map sq_content (squeaks (set_squeak_unliked x d)) = map sq_content (squeaks d)
       \<and> map sq_hash (squeaks (set_squeak_unliked x d)) = map sq_hash (squeaks d)
       \<and> squeaks (delete_squeak x d) = filter (\<lambda>r. sq_hash r \<noteq> x) (squeaks d)"
proof -
  have e: "squeaks_unlocked_inv empty_db"
    by (simp add: squeaks_unlocked_inv_def empty_db_def)
  note col = set_squeak_decryption_key_columns
      [where x = x and k = k and c = c and xs = "squeaks d",
       folded squeaks_set_squeak_decryption_key]
  note lk = liked_columns [where x = x and t = "Some now" and xs = "squeaks d",
       folded squeaks_set_squeak_liked]
  note ul = liked_columns [where x = x and t = None and xs = "squeaks d",
       folded squeaks_set_squeak_unliked]
  show ?thesis
    using assms e inv_insert_squeak [of d now s h] inv_set_squeak_decryption_key [of d x k c]
      inv_set_squeak_liked [of d now x] inv_set_squeak_unliked [of d x]
      inv_delete_squeak [of d x] insert_squeak_new_row [of s d now h]
      insert_squeak_stored [of s d now h]
      set_squeak_decryption_key_both [of x k c d]
      squeaks_set_squeak_decryption_key [of x k c d] col
      set_squeak_decryption_key_other_tables [of x k c d] lk ul
      squeaks_delete_squeak [of x d]
    by (intro conjI impI) (assumption | (elim conjE, assumption) | blast)+
qed

theorem secret_key_iff_content_witness:
  "squeaks_unlocked_inv empty_db
   \<and> squeaks_unlocked_inv (snd (insert_squeak 1000 squeak_a header_a empty_db))
   \<and> map sq_hash (squeaks (snd (insert_squeak 1000 squeak_a header_a empty_db))) = [[0x0A]]
   \<and> map sq_secret_key (squeaks (snd (insert_squeak 1000 squeak_a header_a empty_db)))
       = [None]
   \<and> map sq_content (squeaks (snd (insert_squeak 1000 squeak_a header_a empty_db))) = [None]
   \<and> squeaks_unlocked_inv
        (set_squeak_decryption_key [0x0A] [0x77] ''hello!''
           (snd (insert_squeak 1000 squeak_a header_a empty_db)))
   \<and> map sq_hash (squeaks (set_squeak_decryption_key [0x0A] [0x77] ''hello!''
           (snd (insert_squeak 1000 squeak_a header_a empty_db)))) = [[0x0A]]
   \<and> map sq_secret_key (squeaks (set_squeak_decryption_key [0x0A] [0x77] ''hello!''
           (snd (insert_squeak 1000 squeak_a header_a empty_db)))) = [Some [0x77]]
   \<and> map sq_content (squeaks (set_squeak_decryption_key [0x0A] [0x77] ''hello!''
           (snd (insert_squeak 1000 squeak_a header_a empty_db)))) = [Some ''hello!'']"
proof -
  let ?d1 = "snd (insert_squeak 1000 squeak_a header_a empty_db)"
  have e: "squeaks_unlocked_inv empty_db"
    by (simp add: squeaks_unlocked_inv_def empty_db_def)
  have f: "get_hash squeak_a \<notin> set (map sq_hash (squeaks empty_db))"
    by (simp add: empty_db_def)
  have g: "get_hash squeak_a = [0x0A]"
    by (simp add: get_hash_def squeak_a_def)
  from secret_key_iff_content [OF e, of 1000 squeak_a header_a] f
  obtain r where i: "squeaks_unlocked_inv ?d1"
    and r: "squeaks ?d1 = squeaks empty_db @ [r]" "sq_hash r = get_hash squeak_a"
      "sq_secret_key r = None" "sq_content r = None"
    by blast
  have c1: "map sq_hash (squeaks ?d1) = [[0x0A]]" "map sq_secret_key (squeaks ?d1) = [None]"
    "map sq_content (squeaks ?d1) = [None]"
    using r g by (simp_all add: empty_db_def)
  from secret_key_iff_content [OF i, of 1000 squeak_a header_a "[0x0A]" "[0x77]" "''hello!''"]
  have u: "squeaks_unlocked_inv (set_squeak_decryption_key [0x0A] [0x77] ''hello!'' ?d1)"
    and h: "map sq_hash (squeaks (set_squeak_decryption_key [0x0A] [0x77] ''hello!'' ?d1))
              = map sq_hash (squeaks ?d1)"
    and k: "map sq_secret_key (squeaks (set_squeak_decryption_key [0x0A] [0x77] ''hello!'' ?d1))
              = map (\<lambda>r. if sq_hash r = [0x0A] then Some [0x77] else sq_secret_key r)
                    (squeaks ?d1)"
    and c: "map sq_content (squeaks (set_squeak_decryption_key [0x0A] [0x77] ''hello!'' ?d1))
              = map (\<lambda>r. if sq_hash r = [0x0A] then Some ''hello!'' else sq_content r)
                    (squeaks ?d1)"
    by blast+
  have k': "map sq_secret_key (squeaks (set_squeak_decryption_key [0x0A] [0x77] ''hello!'' ?d1))
              = [Some [0x77]]"
    unfolding k using r g by (simp add: empty_db_def)
  have c': "map sq_content (squeaks (set_squeak_decryption_key [0x0A] [0x77] ''hello!'' ?d1))
              = [Some ''hello!'']"
    unfolding c using r g by (simp add: empty_db_def)
  show ?thesis
    using e i c1 u h k' c' by (intro conjI) simp_all
qed

subsection \<open>Inserting a squeak twice\<close>

lemma insert_squeak_existing:
  "get_hash s \<in> set (map sq_hash (squeaks d)) \<Longrightarrow> insert_squeak now s h d = (None, d)"
  by (simp add: insert_squeak_def Let_def)

lemma insert_squeak_fresh:
  "get_hash s \<notin> set (map sq_hash (squeaks d)) \<Longrightarrow>
     fst (insert_squeak now s h d) = Some (get_hash s)"
  by (simp add: insert_squeak_def Let_def)

lemma insert_squeak_stores_hash:
  "get_hash s \<in> set (map sq_hash (squeaks (snd (insert_squeak now s h d))))"
  by (simp add: insert_squeak_def Let_def)

lemma insert_squeak_twice:
  "insert_squeak now' s h' (snd (insert_squeak now s h d))
     = (None, snd (insert_squeak now s h d))"
  by (rule insert_squeak_existing) (rule insert_squeak_stores_hash)

text \<open>
  C2. Inserting a squeak whose hash is already stored returns \<open>None\<close> and leaves
  the store as it is; inserting one whose hash is not stored returns its hash; so a
  second \<open>insert_squeak\<close> of the same squeak, at whatever time, returns \<open>None\<close> and the
  store is the one the first insert left.
\<close>

theorem insert_squeak_idempotent:
  "(get_hash s \<in> set (map sq_hash (squeaks d)) \<longrightarrow> insert_squeak now s h d = (None, d))
   \<and> (get_hash s \<notin> set (map sq_hash (squeaks d)) \<longrightarrow>
        fst (insert_squeak now s h d) = Some (get_hash s))
   \<and> insert_squeak now' s h' (snd (insert_squeak now s h d))
        = (None, snd (insert_squeak now s h d))"
  using insert_squeak_existing [of s d now h] insert_squeak_fresh [of s d now h]
    insert_squeak_twice [of now' s h' now h d]
  by (intro conjI impI) assumption+

theorem insert_squeak_idempotent_witness:
  "get_hash squeak_a \<notin> set (map sq_hash (squeaks empty_db))
   \<and> fst (insert_squeak 1000 squeak_a header_a empty_db) = Some [0x0A]
   \<and> get_hash squeak_a
        \<in> set (map sq_hash (squeaks (snd (insert_squeak 1000 squeak_a header_a empty_db))))
   \<and> insert_squeak 2000 squeak_a header_a (snd (insert_squeak 1000 squeak_a header_a empty_db))
        = (None, snd (insert_squeak 1000 squeak_a header_a empty_db))"
proof -
  have f: "get_hash squeak_a \<notin> set (map sq_hash (squeaks empty_db))"
    by (simp add: empty_db_def)
  have g: "get_hash squeak_a = [0x0A]"
    by (simp add: get_hash_def squeak_a_def)
  have m: "get_hash squeak_a
        \<in> set (map sq_hash (squeaks (snd (insert_squeak 1000 squeak_a header_a empty_db))))"
    by (rule insert_squeak_stores_hash)
  from insert_squeak_idempotent [of squeak_a empty_db 1000 header_a 2000 header_a]
  have 1: "fst (insert_squeak 1000 squeak_a header_a empty_db) = Some (get_hash squeak_a)"
    using f by blast
  from insert_squeak_idempotent
         [of squeak_a "snd (insert_squeak 1000 squeak_a header_a empty_db)" 2000 header_a]
  have 3: "insert_squeak 2000 squeak_a header_a
              (snd (insert_squeak 1000 squeak_a header_a empty_db))
            = (None, snd (insert_squeak 1000 squeak_a header_a empty_db))"
    using m by blast
  show ?thesis using f 1 3 g m by simp
qed

subsection \<open>Expiry of received offers\<close>

lemma timestamp_now_s_ge: "(timestamp_now_s now \<ge> of_int e) = (now \<ge> 1000 * e)"
proof -
  have "(of_int e \<le> (of_int now :: rat) / 1000) = ((of_int e :: rat) * 1000 \<le> of_int now)"
    by (simp add: pos_le_divide_eq)
  also have "\<dots> = ((of_int (e * 1000) :: rat) \<le> of_int now)"
    by simp
  also have "\<dots> = (e * 1000 \<le> now)"
    by (simp only: of_int_le_iff)
  finally show ?thesis by (simp add: timestamp_now_s_def mult.commute)
qed

lemma timestamp_now_s_less: "(timestamp_now_s now < of_int e) = (now < 1000 * e)"
  using timestamp_now_s_ge [of e now] by (simp add: not_le [symmetric])

lemma parsed_offers_not_expired:
  "list_all (\<lambda>x. timestamp_now_s now < of_int (invoice_timestamp x + invoice_expiry x))
     (map parse_received_offer (filter (received_offer_is_not_expired now) xs))"
  by (induction xs)
     (simp_all add: parse_received_offer_def received_offer_is_not_expired_def)

lemma get_received_offers_not_expired:
  "list_all (\<lambda>x. timestamp_now_s now < of_int (invoice_timestamp x + invoice_expiry x))
     (get_received_offers now h d)"
  unfolding get_received_offers_def Let_def by (rule parsed_offers_not_expired)

lemma received_offer_should_be_deleted_eq:
  "received_offer_should_be_deleted now =
     (\<lambda>r. timestamp_now_s now \<ge> of_int (ro_invoice_timestamp r + ro_invoice_expiry r))"
  by (rule ext) (simp add: received_offer_should_be_deleted_def Let_def)

lemma received_offers_delete_expired:
  "received_offers (snd (delete_expired_received_offers now d)) =
     filter (\<lambda>r. \<not> timestamp_now_s now \<ge> of_int (ro_invoice_timestamp r + ro_invoice_expiry r))
            (received_offers d)"
  by (simp add: delete_expired_received_offers_def received_offer_should_be_deleted_def
      Let_def)

lemma count_delete_expired:
  "fst (delete_expired_received_offers now d) =
     length (filter (\<lambda>r. timestamp_now_s now
                            \<ge> of_int (ro_invoice_timestamp r + ro_invoice_expiry r))
                    (received_offers d))"
  by (simp only: delete_expired_received_offers_def Let_def fst_conv
      received_offer_should_be_deleted_eq)

text \<open>
  C5. With \<open>now = timestamp_now_ms / 1000\<close>: \<open>get_received_offers\<close> returns no offer with
  \<open>now \<ge> invoice_timestamp + invoice_expiry\<close>, and \<open>delete_expired_received_offers\<close>
  removes exactly the rows with \<open>now \<ge> invoice_timestamp + invoice_expiry\<close>, keeps the
  others in place and returns the number removed. In milliseconds the test is
  \<open>timestamp_now_ms \<ge> 1000 * (invoice_timestamp + invoice_expiry)\<close>.
\<close>

theorem received_offers_expire:
  "(\<forall>x \<in> set (get_received_offers now h d).
      \<not> timestamp_now_s now \<ge> of_int (invoice_timestamp x + invoice_expiry x))
   \<and> received_offers (snd (delete_expired_received_offers now d)) =
       filter (\<lambda>r. \<not> timestamp_now_s now
                       \<ge> of_int (ro_invoice_timestamp r + ro_invoice_expiry r))
              (received_offers d)
   \<and> fst (delete_expired_received_offers now d) =
       length (filter (\<lambda>r. timestamp_now_s now
                              \<ge> of_int (ro_invoice_timestamp r + ro_invoice_expiry r))
                      (received_offers d))
   \<and> (timestamp_now_s now \<ge> of_int e) = (now \<ge> 1000 * e)"
proof -
  have "\<forall>x \<in> set (get_received_offers now h d).
      \<not> timestamp_now_s now \<ge> of_int (invoice_timestamp x + invoice_expiry x)"
    using get_received_offers_not_expired [of now h d]
    unfolding list_all_iff not_le .
  then show ?thesis
    using received_offers_delete_expired [of now d] count_delete_expired [of now d]
      timestamp_now_s_ge [of e now]
    by (intro conjI) assumption+
qed

lemma offers_db_received: "received_offers offers_db = [offer_a, offer_b]"
  by (simp add: offers_db_def empty_db_def)

lemma offer_a_expired: "received_offer_should_be_deleted 1500000 offer_a"
  by (simp add: received_offer_should_be_deleted_def offer_a_def timestamp_now_s_def)

lemma offer_b_live: "\<not> received_offer_should_be_deleted 1500000 offer_b"
  by (simp add: received_offer_should_be_deleted_def offer_a_def offer_b_def
      timestamp_now_s_def)

theorem received_offers_expire_witness:
  "get_received_offers 1500000 [0x0A] offers_db = [parse_received_offer offer_b]
   \<and> list_all (\<lambda>x. \<not> timestamp_now_s 1500000
                           \<ge> of_int (invoice_timestamp x + invoice_expiry x))
        (get_received_offers 1500000 [0x0A] offers_db)
   \<and> received_offers (snd (delete_expired_received_offers 1500000 offers_db)) = [offer_b]
   \<and> fst (delete_expired_received_offers 1500000 offers_db) = 1"
proof -
  have a: "timestamp_now_s 1500000 \<ge> of_int (ro_invoice_timestamp offer_a + ro_invoice_expiry offer_a)"
    using offer_a_expired by (simp add: received_offer_should_be_deleted_def)
  have b: "\<not> timestamp_now_s 1500000 \<ge> of_int (ro_invoice_timestamp offer_b + ro_invoice_expiry offer_b)"
    using offer_b_live by (simp add: received_offer_should_be_deleted_def)
  have ha: "ro_squeak_hash offer_a = [0x0A]" "ro_paid offer_a = False"
    by (simp_all add: offer_a_def)
  have hb: "ro_squeak_hash offer_b = [0x0A]" "ro_paid offer_b = False"
    by (simp_all add: offer_a_def offer_b_def)
  have g: "get_received_offers 1500000 [0x0A] offers_db = [parse_received_offer offer_b]"
    using a b ha hb
    by (simp add: get_received_offers_def offers_db_received received_offer_is_not_paid_def
        received_offer_is_not_expired_def not_le [symmetric])
  from received_offers_expire [of 1500000 "[0x0A]" offers_db 0]
  show ?thesis using a b g by (simp add: offers_db_received list_all_iff)
qed

subsection \<open>Expiry of sent offers, with grace\<close>

lemma sent_offer_should_be_deleted_eq:
  "sent_offer_should_be_deleted now g =
     (\<lambda>r. timestamp_now_s now \<ge> of_int (so_invoice_timestamp r + so_invoice_expiry r + g))"
  by (rule ext) (simp add: sent_offer_should_be_deleted_def Let_def)

lemma sent_offers_delete_expired:
  "sent_offers (snd (delete_expired_sent_offers now g d)) =
     filter (\<lambda>r. \<not> timestamp_now_s now
                     \<ge> of_int (so_invoice_timestamp r + so_invoice_expiry r + g))
            (sent_offers d)"
  by (simp add: delete_expired_sent_offers_def sent_offer_should_be_deleted_eq Let_def)

text \<open>
  C6. With \<open>now = timestamp_now_ms / 1000\<close> and grace interval \<open>g\<close>:
  \<open>delete_expired_sent_offers\<close> removes exactly the sent offers with
  \<open>now \<ge> invoice_timestamp + invoice_expiry + g\<close>. A sent offer that is expired
  (\<open>now \<ge> invoice_timestamp + invoice_expiry\<close>) but within the grace period stays in
  the table, one past expiry plus grace is gone.
\<close>

theorem sent_offers_deleted_after_grace:
  "sent_offers (snd (delete_expired_sent_offers now g d)) =
     filter (\<lambda>r. \<not> timestamp_now_s now
                     \<ge> of_int (so_invoice_timestamp r + so_invoice_expiry r + g))
            (sent_offers d)
   \<and> (\<forall>r \<in> set (sent_offers d).
         of_int (so_invoice_timestamp r + so_invoice_expiry r) \<le> timestamp_now_s now
         \<and> timestamp_now_s now < of_int (so_invoice_timestamp r + so_invoice_expiry r + g)
         \<longrightarrow> r \<in> set (sent_offers (snd (delete_expired_sent_offers now g d))))
   \<and> (\<forall>r \<in> set (sent_offers d).
         timestamp_now_s now \<ge> of_int (so_invoice_timestamp r + so_invoice_expiry r + g)
         \<longrightarrow> r \<notin> set (sent_offers (snd (delete_expired_sent_offers now g d))))"
  unfolding sent_offers_delete_expired set_filter by (auto simp add: not_le)

lemma offers_db_sent: "sent_offers offers_db = [sent_offer_a]"
  by (simp add: offers_db_def empty_db_def)

theorem sent_offers_deleted_after_grace_witness:
  "sent_offer_a \<in> set (sent_offers offers_db)
   \<and> of_int (so_invoice_timestamp sent_offer_a + so_invoice_expiry sent_offer_a)
       \<le> timestamp_now_s 1070000
   \<and> timestamp_now_s 1070000
       < of_int (so_invoice_timestamp sent_offer_a + so_invoice_expiry sent_offer_a + 30)
   \<and> sent_offer_a \<in> set (sent_offers (snd (delete_expired_sent_offers 1070000 30 offers_db)))
   \<and> timestamp_now_s 1090000
       \<ge> of_int (so_invoice_timestamp sent_offer_a + so_invoice_expiry sent_offer_a + 30)
   \<and> sent_offer_a \<notin> set (sent_offers (snd (delete_expired_sent_offers 1090000 30 offers_db)))"
proof -
  have m: "sent_offer_a \<in> set (sent_offers offers_db)"
    by (simp add: offers_db_sent)
  have e: "of_int (so_invoice_timestamp sent_offer_a + so_invoice_expiry sent_offer_a)
             \<le> timestamp_now_s 1070000"
    by (simp add: sent_offer_a_def timestamp_now_s_def)
  have w: "timestamp_now_s 1070000
       < of_int (so_invoice_timestamp sent_offer_a + so_invoice_expiry sent_offer_a + 30)"
    by (simp add: sent_offer_a_def timestamp_now_s_def)
  have p: "timestamp_now_s 1090000
       \<ge> of_int (so_invoice_timestamp sent_offer_a + so_invoice_expiry sent_offer_a + 30)"
    by (simp add: sent_offer_a_def timestamp_now_s_def)
  have k: "sent_offer_a \<in> set (sent_offers (snd (delete_expired_sent_offers 1070000 30 offers_db)))"
    using sent_offers_deleted_after_grace [of 1070000 30 offers_db] m e w by blast
  have g: "sent_offer_a \<notin> set (sent_offers (snd (delete_expired_sent_offers 1090000 30 offers_db)))"
    using sent_offers_deleted_after_grace [of 1090000 30 offers_db] m p by blast
  show ?thesis using m e w p k g by (intro conjI) assumption+
qed

subsection \<open>Inserting a peer at a taken host and port\<close>

lemma insert_peer_violation:
  "list_ex (\<lambda>p. pr_host p = host (peer_address sp) \<and> pr_port p = port (peer_address sp))
           (peers d)
   \<Longrightarrow> insert_peer now sp d = (Inl IntegrityError, d)"
  by (simp add: insert_peer_def Let_def)

lemma insert_peer_fresh:
  "\<not> list_ex (\<lambda>p. pr_host p = host (peer_address sp) \<and> pr_port p = port (peer_address sp))
           (peers d)
   \<Longrightarrow> fst (insert_peer now sp d) = Inr (peer_seq d + 1)
       \<and> list_ex (\<lambda>p. pr_host p = host (peer_address sp) \<and> pr_port p = port (peer_address sp))
            (peers (snd (insert_peer now sp d)))"
  by (simp add: insert_peer_def Let_def)

text \<open>
  C9. When the store holds a peer with the host and port of the peer given to
  \<open>insert_peer\<close>, the insert ends in the integrity error of the unique constraint
  (an error for the caller, not a \<open>None\<close>), and the store, the peer table with it, is as
  before.
\<close>

theorem insert_peer_duplicate:
  assumes "p \<in> set (peers d)"
    and "pr_host p = host (peer_address sp)"
    and "pr_port p = port (peer_address sp)"
  shows "insert_peer now sp d = (Inl IntegrityError, d)
       \<and> peers (snd (insert_peer now sp d)) = peers d"
proof -
  have "list_ex (\<lambda>p. pr_host p = host (peer_address sp) \<and> pr_port p = port (peer_address sp))
          (peers d)"
    unfolding list_ex_iff using assms by blast
  then have "insert_peer now sp d = (Inl IntegrityError, d)"
    by (rule insert_peer_violation)
  then show ?thesis by simp
qed

theorem insert_peer_duplicate_witness:
  "peers (snd (insert_peer 1 peer_a empty_db)) =
     [\<lparr> pr_peer_id = 1, pr_created_time_ms = 1, pr_peer_name = ''fake_peer_name'',
        pr_host = ''fake_host'', pr_port = 5678, pr_use_tor = False,
        pr_autoconnect = False \<rparr>]
   \<and> insert_peer 2 peer_b (snd (insert_peer 1 peer_a empty_db))
       = (Inl IntegrityError, snd (insert_peer 1 peer_a empty_db))
   \<and> peers (snd (insert_peer 2 peer_b (snd (insert_peer 1 peer_a empty_db))))
       = peers (snd (insert_peer 1 peer_a empty_db))"
proof -
  let ?p = "\<lparr> pr_peer_id = 1, pr_created_time_ms = 1, pr_peer_name = ''fake_peer_name'',
        pr_host = ''fake_host'', pr_port = 5678, pr_use_tor = False,
        pr_autoconnect = False \<rparr>"
  have d: "peers (snd (insert_peer 1 peer_a empty_db)) = [?p]"
    by (simp add: insert_peer_def Let_def peer_a_def empty_db_def)
  have m: "?p \<in> set (peers (snd (insert_peer 1 peer_a empty_db)))"
    unfolding d by simp
  have h: "pr_host ?p = host (peer_address peer_b)"
    by (simp add: peer_b_def)
  have q: "pr_port ?p = port (peer_address peer_b)"
    by (simp add: peer_b_def)
  show ?thesis
    using d insert_peer_duplicate [OF m h q, of 2] by (intro conjI) (assumption | blast)+
qed

subsection \<open>Lookup with a block bound of zero\<close>

lemma set_order_by_desc: "set (order_by_desc k xs) = set xs"
  by (simp add: order_by_desc_def)

lemma set_lookup_squeaks:
  "set (lookup_squeaks a mn mx r il d) =
     set (map sq_hash (filter (\<lambda>s. (a = [] \<or> sq_author_address s \<in> set a)
                                  \<and> (mn = 0 \<or> mn \<le> sq_n_block_height s)
                                  \<and> (mx = 0 \<or> sq_n_block_height s \<le> mx)
                                  \<and> (r = [] \<or> sq_hash_reply_sqk s = Some r)
                                  \<and> (il \<or> sq_secret_key s \<noteq> None)) (squeaks d)))"
  by (auto simp add: lookup_squeaks_def Let_def set_order_by_desc squeak_has_secret_key_def)

text \<open>
  C10. \<open>lookup_squeaks\<close> with \<open>min_block = 0\<close> puts no lower bound on the block height,
  and with \<open>max_block = 0\<close> no upper bound: the hashes returned are those of all the
  squeaks that pass the other filters (addresses, the bound of the other side when it
  is not 0, reply-to hash, unlocked unless \<open>include_locked\<close>), whatever their height.
\<close>

theorem lookup_squeaks_zero_unbounded:
  "set (lookup_squeaks a 0 mx r il d) =
     set (map sq_hash (filter (\<lambda>s. (a = [] \<or> sq_author_address s \<in> set a)
                                  \<and> (mx = 0 \<or> sq_n_block_height s \<le> mx)
                                  \<and> (r = [] \<or> sq_hash_reply_sqk s = Some r)
                                  \<and> (il \<or> sq_secret_key s \<noteq> None)) (squeaks d)))
   \<and> set (lookup_squeaks a mn 0 r il d) =
     set (map sq_hash (filter (\<lambda>s. (a = [] \<or> sq_author_address s \<in> set a)
                                  \<and> (mn = 0 \<or> mn \<le> sq_n_block_height s)
                                  \<and> (r = [] \<or> sq_hash_reply_sqk s = Some r)
                                  \<and> (il \<or> sq_secret_key s \<noteq> None)) (squeaks d)))"
  using set_lookup_squeaks [of a 0 mx r il d] set_lookup_squeaks [of a mn 0 r il d]
  by simp

lemma squeaks_db_squeaks: "squeaks squeaks_db = [row_a, row_b, row_c]"
  by (simp add: squeaks_db_def empty_db_def)

theorem lookup_squeaks_zero_unbounded_witness:
  "set (lookup_squeaks [] 0 0 [] False squeaks_db) = {[0x0A], [0x0B], [0x0C]}
   \<and> set (lookup_squeaks [] 0 5 [] False squeaks_db) = {[0x0A]}
   \<and> set (lookup_squeaks [] 6 0 [] False squeaks_db) = {[0x0B], [0x0C]}"
proof -
  have r: "sq_n_block_height row_a = 5" "sq_n_block_height row_b = 7"
    "sq_n_block_height row_c = 7" "sq_secret_key row_a = Some [0x77]"
    "sq_secret_key row_b = Some [0x77]" "sq_secret_key row_c = Some [0x77]"
    "sq_hash row_a = [0x0A]" "sq_hash row_b = [0x0B]" "sq_hash row_c = [0x0C]"
    by (simp_all add: row_a_def row_b_def row_c_def)
  show ?thesis
    using lookup_squeaks_zero_unbounded [of "[]" 0 "[]" False squeaks_db 0]
      lookup_squeaks_zero_unbounded [of "[]" 5 "[]" False squeaks_db 6]
    by (simp add: squeaks_db_squeaks r insert_commute)
qed

subsection \<open>Retention\<close>

lemma filter_unique_key:
  "distinct (map f ps) \<Longrightarrow>
     filter (\<lambda>p. f p = a) ps = (case find (\<lambda>p. f p = a) ps of None \<Rightarrow> [] | Some p \<Rightarrow> [p])"
proof (induction ps)
  case Nil
  then show ?case by simp
next
  case (Cons p ps)
  show ?case
  proof (cases "f p = a")
    case True
    with Cons.prems have "\<forall>q \<in> set ps. f q \<noteq> a" by (fastforce simp add: image_iff)
    then have "filter (\<lambda>p. f p = a) ps = []" by (simp add: filter_empty_conv)
    with True show ?thesis by simp
  next
    case False
    with Cons show ?thesis by simp
  qed
qed

lemma outerjoin_profiles_unique:
  assumes "distinct (map pf_address ps)"
  shows "outerjoin_profiles sq rows ps =
           map (\<lambda>r. (r, find (\<lambda>p. pf_address p = sq_author_address (sq r)) ps)) rows"
proof -
  have one: "(case filter (\<lambda>p. pf_address p = a) ps of
                [] \<Rightarrow> [(r, None)] | m # ms \<Rightarrow> map (\<lambda>p. (r, Some p)) (m # ms))
             = [(r, find (\<lambda>p. pf_address p = a) ps)]" for a and r :: 'a
    unfolding filter_unique_key [OF assms]
    by (cases "find (\<lambda>p. pf_address p = a) ps") simp_all
  show ?thesis
    unfolding outerjoin_profiles_def one by (induction rows) simp_all
qed

lemma no_private_key_iff_not_owned:
  "distinct (map pf_address ps) \<Longrightarrow>
     profile_has_no_private_key (find (\<lambda>p. pf_address p = a) ps)
     = (\<not> list_ex (\<lambda>p. pf_address p = a \<and> pf_private_key p \<noteq> None) ps)"
proof (induction ps)
  case Nil
  then show ?case by (simp add: profile_has_no_private_key_def)
next
  case (Cons p ps)
  show ?case
  proof (cases "pf_address p = a")
    case True
    with Cons.prems have "\<forall>q \<in> set ps. pf_address q \<noteq> a"
      by (fastforce simp add: image_iff)
    then have "\<not> list_ex (\<lambda>p. pf_address p = a \<and> pf_private_key p \<noteq> None) ps"
      by (simp add: list_ex_iff)
    with True show ?thesis by (simp add: profile_has_no_private_key_def)
  next
    case False
    with Cons show ?thesis by simp
  qed
qed

lemma get_old_squeaks_to_delete_rows:
  assumes "distinct (map pf_address (profiles d))"
  shows "get_old_squeaks_to_delete now i d =
           map sq_hash (filter (older_eligible_for_deletion now i d) (squeaks d))"
proof -
  have "get_old_squeaks_to_delete now i d =
          map sq_hash (filter (\<lambda>r. squeak_is_older_than_retention now i r
              \<and> profile_has_no_private_key
                  (find (\<lambda>p. pf_address p = sq_author_address r) (profiles d))
              \<and> squeak_is_not_liked r) (squeaks d))"
    unfolding get_old_squeaks_to_delete_def Let_def outerjoin_profiles_unique [OF assms]
    by (simp add: filter_map comp_def)
  also have "\<dots> = map sq_hash (filter (older_eligible_for_deletion now i d) (squeaks d))"
    unfolding no_private_key_iff_not_owned [OF assms]
    by (rule arg_cong [where f = "map sq_hash"], rule filter_cong)
       (auto simp add: older_eligible_for_deletion_def locally_owned_def
          squeak_is_not_liked_def squeak_is_older_than_retention_def)
  finally show ?thesis .
qed

text \<open>
  C4, as the code has it. Under the constraints of the schema, the retention query
  returns exactly the hashes of the squeaks that are older than the retention
  (\<open>created_time_ms + I * 1000 < now\<close>, strictly), not liked, and whose author has no
  profile with a private key; a squeak of a locally owned profile is never among
  them, whatever its age.
\<close>

theorem retention_selects_older_unliked_unowned:
  assumes "db_constraints d"
  shows "get_old_squeaks_to_delete now i d =
           map sq_hash (filter (older_eligible_for_deletion now i d) (squeaks d))
       \<and> (\<forall>r \<in> set (squeaks d).
             locally_owned d r \<longrightarrow> sq_hash r \<notin> set (get_old_squeaks_to_delete now i d))"
proof -
  from assms have da: "distinct (map pf_address (profiles d))"
    and dh: "distinct (map sq_hash (squeaks d))"
    by (simp_all add: db_constraints_def)
  have eq: "get_old_squeaks_to_delete now i d =
           map sq_hash (filter (older_eligible_for_deletion now i d) (squeaks d))"
    by (rule get_old_squeaks_to_delete_rows [OF da])
  have inj: "inj_on sq_hash (set (squeaks d))"
    using dh by (simp add: distinct_map)
  have "sq_hash r \<notin> set (get_old_squeaks_to_delete now i d)"
    if r: "r \<in> set (squeaks d)" and own: "locally_owned d r" for r
  proof
    assume "sq_hash r \<in> set (get_old_squeaks_to_delete now i d)"
    then obtain r' where r': "r' \<in> set (squeaks d)" "older_eligible_for_deletion now i d r'"
      "sq_hash r' = sq_hash r"
      unfolding eq by auto
    with inj r have "r' = r" by (simp add: inj_on_def)
    with r' own show False by (simp add: older_eligible_for_deletion_def)
  qed
  with eq show ?thesis by blast
qed

lemma squeaks_db_tables:
  "squeaks squeaks_db = [row_a, row_b, row_c]"
  "profiles squeaks_db = [profile_alice, profile_bob]"
  by (simp_all add: squeaks_db_def empty_db_def)

lemma example_rows:
  "sq_hash row_a = [0x0A]" "sq_hash row_b = [0x0B]" "sq_hash row_c = [0x0C]"
  "sq_created_time_ms row_a = 1000" "sq_created_time_ms row_b = 1000"
  "sq_created_time_ms row_c = 1000"
  "sq_liked_time_ms row_a = None" "sq_liked_time_ms row_b = None"
  "sq_liked_time_ms row_c = None"
  "sq_author_address row_a = ''alice''" "sq_author_address row_b = ''bob''"
  "sq_author_address row_c = ''alice''"
  "sq_n_block_height row_a = 5" "sq_n_block_height row_b = 7" "sq_n_block_height row_c = 7"
  "sq_n_time row_a = 100" "sq_n_time row_b = 100" "sq_n_time row_c = 120"
  "sq_content row_a = Some ''abc''" "sq_content row_b = Some ''Hello World''"
  "sq_content row_c = Some ''abc''"
  by (simp_all add: row_a_def row_b_def row_c_def)

lemma example_profiles:
  "pf_address profile_alice = ''alice''" "pf_address profile_bob = ''bob''"
  "pf_private_key profile_alice = Some [0x99]" "pf_private_key profile_bob = None"
  "pf_following profile_alice = True" "pf_following profile_bob = True"
  by (simp_all add: profile_alice_def profile_bob_def)

lemma squeaks_db_constraints: "db_constraints squeaks_db"
  by (simp add: db_constraints_def squeaks_db_tables example_rows example_profiles
      empty_db_def squeaks_db_def)

theorem retention_selects_older_unliked_unowned_witness:
  "db_constraints squeaks_db
   \<and> get_old_squeaks_to_delete 2001 1 squeaks_db = [[0x0B]]
   \<and> row_a \<in> set (squeaks squeaks_db) \<and> locally_owned squeaks_db row_a
   \<and> sq_hash row_a \<notin> set (get_old_squeaks_to_delete 2001 1 squeaks_db)"
proof -
  have own: "locally_owned squeaks_db row_a"
    by (simp add: locally_owned_def squeaks_db_tables example_rows example_profiles)
  have mem: "row_a \<in> set (squeaks squeaks_db)"
    by (simp add: squeaks_db_tables)
  have sel: "map sq_hash (filter (older_eligible_for_deletion 2001 1 squeaks_db)
                                 (squeaks squeaks_db)) = [[0x0B]]"
    by (simp add: older_eligible_for_deletion_def locally_owned_def squeaks_db_tables
        example_rows example_profiles)
  from retention_selects_older_unliked_unowned [OF squeaks_db_constraints, of 2001 1]
  show ?thesis using own mem sel squeaks_db_constraints by (simp add: example_rows)
qed

text \<open>
  Against C4 as stated: at \<open>now = 2000\<close> with a retention of one second, the squeak
  \<open>row_b\<close>, created at 1000 ms, not liked, its author without a private key, satisfies
  \<open>created_time_ms + I * 1000 \<le> now\<close> and is not selected.
\<close>

theorem retention_boundary_counterexample:
  "row_b \<in> set (squeaks squeaks_db)
   \<and> spec_eligible_for_deletion 2000 1 squeaks_db row_b
   \<and> sq_hash row_b \<notin> set (get_old_squeaks_to_delete 2000 1 squeaks_db)"
proof -
  have da: "distinct (map pf_address (profiles squeaks_db))"
    using squeaks_db_constraints by (simp add: db_constraints_def)
  have "get_old_squeaks_to_delete 2000 1 squeaks_db = []"
    unfolding get_old_squeaks_to_delete_rows [OF da]
    by (simp add: older_eligible_for_deletion_def squeaks_db_tables example_rows)
  moreover have "spec_eligible_for_deletion 2000 1 squeaks_db row_b"
    by (simp add: spec_eligible_for_deletion_def locally_owned_def squeaks_db_tables
        example_rows example_profiles)
  moreover have "row_b \<in> set (squeaks squeaks_db)"
    by (simp add: squeaks_db_tables)
  ultimately show ?thesis by simp
qed

subsection \<open>Keyset pagination of the timeline\<close>

lemma entry_key_parse: "entry_key (parse_squeak_entry row) = squeak_key (fst row)"
  by (simp add: entry_key_def parse_squeak_entry_def squeak_key_def Let_def)

lemma last_key_Some: "last_key (Some e) = entry_key e"
  by (simp add: last_key_def entry_key_def)

lemma distinct_squeak_keys:
  assumes "distinct (map sq_hash sqs)"
  shows "distinct (map squeak_key sqs)"
proof -
  have "sq_hash = (\<lambda>k. snd (snd k)) \<circ> squeak_key"
    by (rule ext) (simp add: squeak_key_def)
  with assms have "distinct (map ((\<lambda>k. snd (snd k)) \<circ> squeak_key) sqs)" by simp
  then have "distinct sqs \<and> inj_on ((\<lambda>k. snd (snd k)) \<circ> squeak_key) (set sqs)"
    by (simp only: distinct_map)
  then have "distinct sqs \<and> inj_on squeak_key (set sqs)"
    by (blast intro: inj_on_imageI2)
  then show ?thesis by (simp only: distinct_map)
qed

lemma distinct_map_sort_key:
  "distinct (map k xs) \<Longrightarrow> distinct (map k (sort_key k xs))"
proof -
  assume d: "distinct (map k xs)"
  have "card (set (map k (sort_key k xs))) = card (set (map k xs))" by simp
  also have "\<dots> = length (map k xs)" using d by (rule distinct_card)
  also have "\<dots> = length (map k (sort_key k xs))" by simp
  finally show ?thesis by (rule card_distinct)
qed

lemma order_by_desc_strict:
  assumes "distinct (map k xs)"
  shows "sorted_wrt (\<lambda>a b. k a > k b) (order_by_desc k xs)"
proof -
  have "sorted (map k (sort_key k xs))" by simp
  moreover have "distinct (map k (sort_key k xs))"
    using assms by (rule distinct_map_sort_key)
  ultimately have "sorted_wrt (<) (map k (sort_key k xs))"
    by (simp add: strict_sorted_iff)
  then have "sorted_wrt (\<lambda>a b. k a < k b) (sort_key k xs)"
    by (simp add: sorted_wrt_map)
  then show ?thesis
    by (simp add: order_by_desc_def sorted_wrt_rev)
qed

lemma decreasing_ge_last:
  "sorted_wrt (\<lambda>a b. f a > f b) xs \<Longrightarrow> x \<in> set xs \<Longrightarrow> f (last xs) \<le> (f x :: 'k :: linorder)"
  by (induction xs) (auto simp add: less_imp_le)

lemma decreasing_distinct:
  "sorted_wrt (\<lambda>a b. f a > (f b :: 'k :: linorder)) xs \<Longrightarrow> distinct xs"
  by (induction xs) auto

lemma sorted_wrt_sql_limit: "sorted_wrt P xs \<Longrightarrow> sorted_wrt P (sql_limit n xs)"
  by (simp add: sql_limit_def)

lemma in_set_sql_limitD: "x \<in> set (sql_limit n xs) \<Longrightarrow> x \<in> set xs"
  by (cases "n < 0") (auto simp add: sql_limit_def dest: in_set_takeD)

lemma length_sql_limit: "0 \<le> n \<Longrightarrow> int (length (sql_limit n xs)) \<le> n"
  by (simp add: sql_limit_def)

lemma outerjoin_profiles_unique':
  assumes "distinct (map pf_address ps)"
  shows "outerjoin_profiles id rows ps =
           map (\<lambda>r. (r, find (\<lambda>p. pf_address p = sq_author_address r) ps)) rows"
  using outerjoin_profiles_unique [OF assms, of id rows] by simp

lemma get_timeline_rows:
  assumes "distinct (map pf_address (profiles d))"
  shows "get_timeline_squeak_entries limit last_entry d =
     map parse_squeak_entry
       (sql_limit limit
         (order_by_desc (\<lambda>row. squeak_key (fst row))
           (filter (\<lambda>row. squeak_key (fst row) < last_key last_entry)
             (filter (\<lambda>row. profile_is_following (snd row))
               (map (\<lambda>r. (r, find (\<lambda>p. pf_address p = sq_author_address r) (profiles d)))
                    (squeaks d))))))"
  unfolding get_timeline_squeak_entries_def Let_def outerjoin_profiles_unique' [OF assms] ..

lemma timeline_rows_distinct_keys:
  assumes "distinct (map sq_hash sqs)"
  shows "distinct (map (\<lambda>row. squeak_key (fst row))
           (filter P (filter Q (map (\<lambda>r. (r, g r)) sqs))))"
proof -
  have "map (\<lambda>row. squeak_key (fst row)) (map (\<lambda>r. (r, g r)) sqs) = map squeak_key sqs"
    by simp
  with distinct_squeak_keys [OF assms]
  have "distinct (map (\<lambda>row. squeak_key (fst row)) (map (\<lambda>r. (r, g r)) sqs))"
    by (simp add: comp_def)
  then show ?thesis by (intro distinct_map_filter)
qed

lemma timeline_sorted:
  assumes "db_constraints d"
  shows "sorted_wrt (\<lambda>a b. entry_key a > entry_key b)
           (get_timeline_squeak_entries limit last_entry d)"
proof -
  from assms have da: "distinct (map pf_address (profiles d))"
    and dh: "distinct (map sq_hash (squeaks d))"
    by (simp_all add: db_constraints_def)
  show ?thesis
    unfolding get_timeline_rows [OF da] sorted_wrt_map entry_key_parse
    by (intro sorted_wrt_sql_limit order_by_desc_strict timeline_rows_distinct_keys dh)
qed

lemma timeline_below_last:
  assumes "distinct (map pf_address (profiles d))"
    and "e \<in> set (get_timeline_squeak_entries limit last_entry d)"
  shows "entry_key e < last_key last_entry"
proof -
  from assms(2) obtain row where e: "e = parse_squeak_entry row"
    and row: "row \<in> set (sql_limit limit
         (order_by_desc (\<lambda>row. squeak_key (fst row))
           (filter (\<lambda>row. squeak_key (fst row) < last_key last_entry)
             (filter (\<lambda>row. profile_is_following (snd row))
               (map (\<lambda>r. (r, find (\<lambda>p. pf_address p = sq_author_address r) (profiles d)))
                    (squeaks d))))))"
    unfolding get_timeline_rows [OF assms(1)] by auto
  from in_set_sql_limitD [OF row] have "squeak_key (fst row) < last_key last_entry"
    unfolding set_order_by_desc by simp
  then show ?thesis by (simp add: e entry_key_parse)
qed

lemma following_find:
  assumes "profile_is_following (find (\<lambda>p. pf_address p = a) ps)"
  shows "\<exists>p \<in> set ps. find (\<lambda>p. pf_address p = a) ps = Some p
           \<and> pf_address p = a \<and> pf_following p"
proof (cases "find (\<lambda>p. pf_address p = a) ps")
  case None
  with assms show ?thesis by (simp add: profile_is_following_def)
next
  case (Some p)
  then have "p \<in> set ps \<and> pf_address p = a"
    by (auto simp add: find_Some_iff)
  with Some assms show ?thesis by (simp add: profile_is_following_def)
qed

lemma timeline_followed:
  assumes "distinct (map pf_address (profiles d))"
    and "e \<in> set (get_timeline_squeak_entries limit last_entry d)"
  shows "\<exists>r \<in> set (squeaks d). \<exists>p \<in> set (profiles d).
           e = parse_squeak_entry (r, Some p)
           \<and> pf_address p = sq_author_address r \<and> pf_following p"
proof -
  from assms(2) obtain row where e: "e = parse_squeak_entry row"
    and row: "row \<in> set (sql_limit limit
         (order_by_desc (\<lambda>row. squeak_key (fst row))
           (filter (\<lambda>row. squeak_key (fst row) < last_key last_entry)
             (filter (\<lambda>row. profile_is_following (snd row))
               (map (\<lambda>r. (r, find (\<lambda>p. pf_address p = sq_author_address r) (profiles d)))
                    (squeaks d))))))"
    unfolding get_timeline_rows [OF assms(1)] by auto
  from in_set_sql_limitD [OF row]
  obtain r where r: "r \<in> set (squeaks d)"
    and rr: "row = (r, find (\<lambda>p. pf_address p = sq_author_address r) (profiles d))"
    and f: "profile_is_following (snd row)"
    unfolding set_order_by_desc by auto
  from f rr have "profile_is_following
      (find (\<lambda>p. pf_address p = sq_author_address r) (profiles d))" by simp
  from following_find [OF this] obtain p where p: "p \<in> set (profiles d)"
    and fp: "find (\<lambda>p. pf_address p = sq_author_address r) (profiles d) = Some p"
    and pa: "pf_address p = sq_author_address r" and pfo: "pf_following p" by blast
  have "e = parse_squeak_entry (r, Some p)"
    unfolding e rr fp ..
  with pa pfo have "e = parse_squeak_entry (r, Some p)
           \<and> pf_address p = sq_author_address r \<and> pf_following p" by simp
  with r p show ?thesis by (intro bexI)
qed

lemma timeline_length:
  "0 \<le> limit \<Longrightarrow> int (length (get_timeline_squeak_entries limit last_entry d)) \<le> limit"
  by (simp add: get_timeline_squeak_entries_def Let_def length_sql_limit)

lemma pages_below_last:
  assumes "db_constraints d"
  shows "e \<in> set (timeline_pages n limit last_entry d) \<Longrightarrow> entry_key e < last_key last_entry"
proof (induction n arbitrary: last_entry)
  case 0
  then show ?case by simp
next
  case (Suc n)
  from assms have da: "distinct (map pf_address (profiles d))"
    by (simp add: db_constraints_def)
  let ?page = "get_timeline_squeak_entries limit last_entry d"
  show ?case
  proof (cases "?page = []")
    case True
    with Suc.prems show ?thesis by (simp add: Let_def)
  next
    case False
    with Suc.prems
    consider "e \<in> set ?page" | "e \<in> set (timeline_pages n limit (Some (last ?page)) d)"
      by (auto simp add: Let_def)
    then show ?thesis
    proof cases
      case 1
      then show ?thesis by (rule timeline_below_last [OF da])
    next
      case 2
      from Suc.IH [OF 2] have "entry_key e < entry_key (last ?page)"
        by (simp add: last_key_Some)
      also have "entry_key (last ?page) < last_key last_entry"
      proof (rule timeline_below_last [OF da])
        show "last ?page \<in> set ?page" using False by (rule last_in_set)
      qed
      finally show ?thesis .
    qed
  qed
qed

lemma pages_sorted:
  assumes "db_constraints d"
  shows "sorted_wrt (\<lambda>a b. entry_key a > entry_key b) (timeline_pages n limit last_entry d)"
proof (induction n arbitrary: last_entry)
  case 0
  then show ?case by simp
next
  case (Suc n)
  let ?page = "get_timeline_squeak_entries limit last_entry d"
  let ?rest = "timeline_pages n limit (Some (last ?page)) d"
  show ?case
  proof (cases "?page = []")
    case True
    then show ?thesis by (simp add: Let_def)
  next
    case False
    have s1: "sorted_wrt (\<lambda>a b. entry_key a > entry_key b) ?page"
      by (rule timeline_sorted [OF assms])
    have s2: "sorted_wrt (\<lambda>a b. entry_key a > entry_key b) ?rest"
      by (rule Suc.IH)
    have "entry_key y < entry_key x" if x: "x \<in> set ?page" and y: "y \<in> set ?rest" for x y
    proof -
      from pages_below_last [OF assms y] have "entry_key y < entry_key (last ?page)"
        by (simp add: last_key_Some)
      also have "\<dots> \<le> entry_key x"
        using s1 x by (rule decreasing_ge_last)
      finally show ?thesis .
    qed
    with s1 s2 have "sorted_wrt (\<lambda>a b. entry_key a > entry_key b) (?page @ ?rest)"
      by (simp add: sorted_wrt_append)
    with False show ?thesis by (simp add: Let_def)
  qed
qed

text \<open>
  C3, as the code has it. In a store that satisfies the constraints of its schema,
  and for every \<open>limit\<close>, negative or not, every entry of
  \<open>get_timeline_squeak_entries limit last_entry\<close> is a stored squeak joined with a
  stored profile of its author that is marked following, and its key
  \<open>(block_height, squeak_time, hash)\<close> is lexicographically below the key of
  \<open>last_entry\<close> (below \<open>(MAX_INT, MAX_INT, MAX_HASH)\<close> when there is none); the entries
  come in strictly decreasing order of the key. When \<open>limit\<close> is not negative there are
  at most \<open>limit\<close> of them. The concatenation of successive pages is strictly decreasing
  too, so no entry occurs in it twice.
\<close>

theorem timeline_keyset_pagination:
  assumes "db_constraints d"
  shows "(\<forall>e \<in> set (get_timeline_squeak_entries limit last_entry d).
            (\<exists>r \<in> set (squeaks d). \<exists>p \<in> set (profiles d).
                e = parse_squeak_entry (r, Some p)
                \<and> pf_address p = sq_author_address r \<and> pf_following p)
            \<and> entry_key e < last_key last_entry)
       \<and> last_key (Some e0) = entry_key e0
       \<and> sorted_wrt (\<lambda>a b. entry_key a > entry_key b)
            (get_timeline_squeak_entries limit last_entry d)
       \<and> (0 \<le> limit \<longrightarrow>
            int (length (get_timeline_squeak_entries limit last_entry d)) \<le> limit)
       \<and> sorted_wrt (\<lambda>a b. entry_key a > entry_key b)
            (timeline_pages n limit last_entry d)
       \<and> distinct (timeline_pages n limit last_entry d)"
proof -
  from assms have da: "distinct (map pf_address (profiles d))"
    by (simp add: db_constraints_def)
  have p: "sorted_wrt (\<lambda>a b. entry_key a > entry_key b) (timeline_pages n limit last_entry d)"
    by (rule pages_sorted [OF assms])
  from p have "distinct (timeline_pages n limit last_entry d)"
    by (rule decreasing_distinct)
  with p show ?thesis
    using timeline_followed [OF da] timeline_below_last [OF da]
      timeline_sorted [OF assms] timeline_length last_key_Some
    by (intro conjI ballI impI) blast+
qed

lemma squeaks_db_timeline_rows:
  "map (\<lambda>r. (r, find (\<lambda>p. pf_address p = sq_author_address r) (profiles squeaks_db)))
       (squeaks squeaks_db)
   = [(row_a, Some profile_alice), (row_b, Some profile_bob), (row_c, Some profile_alice)]"
  by (simp add: squeaks_db_tables example_rows example_profiles)

lemma example_keys:
  "squeak_key row_a = (5, 100, [0x0A])" "squeak_key row_b = (7, 100, [0x0B])"
  "squeak_key row_c = (7, 120, [0x0C])"
  by (simp_all add: squeak_key_def example_rows)

lemma squeaks_db_first_page:
  "get_timeline_squeak_entries 2 None squeaks_db =
     [parse_squeak_entry (row_c, Some profile_alice),
      parse_squeak_entry (row_b, Some profile_bob)]"
proof -
  have da: "distinct (map pf_address (profiles squeaks_db))"
    using squeaks_db_constraints by (simp add: db_constraints_def)
  show ?thesis
    unfolding get_timeline_rows [OF da] squeaks_db_timeline_rows
    by (simp add: profile_is_following_def example_profiles example_keys last_key_def
        MAX_INT_def order_by_desc_def sql_limit_def)
qed

lemma squeaks_db_second_page:
  "get_timeline_squeak_entries 2 (Some (parse_squeak_entry (row_b, Some profile_bob)))
     squeaks_db = [parse_squeak_entry (row_a, Some profile_alice)]"
proof -
  have da: "distinct (map pf_address (profiles squeaks_db))"
    using squeaks_db_constraints by (simp add: db_constraints_def)
  show ?thesis
    unfolding get_timeline_rows [OF da] squeaks_db_timeline_rows last_key_Some
      entry_key_parse
    by (simp add: profile_is_following_def example_profiles example_keys order_by_desc_def
        sql_limit_def)
qed

lemma squeaks_db_third_page:
  "get_timeline_squeak_entries 2 (Some (parse_squeak_entry (row_a, Some profile_alice)))
     squeaks_db = []"
proof -
  have da: "distinct (map pf_address (profiles squeaks_db))"
    using squeaks_db_constraints by (simp add: db_constraints_def)
  show ?thesis
    unfolding get_timeline_rows [OF da] squeaks_db_timeline_rows last_key_Some
      entry_key_parse
    by (simp add: profile_is_following_def example_profiles example_keys order_by_desc_def
        sql_limit_def)
qed

lemma squeaks_db_pages:
  "timeline_pages (Suc (Suc (Suc 0))) 2 None squeaks_db =
     [parse_squeak_entry (row_c, Some profile_alice),
      parse_squeak_entry (row_b, Some profile_bob),
      parse_squeak_entry (row_a, Some profile_alice)]"
  by (simp add: squeaks_db_first_page squeaks_db_second_page squeaks_db_third_page)

lemma squeak_hash_parse: "squeak_hash (parse_squeak_entry row) = sq_hash (fst row)"
  by (simp add: parse_squeak_entry_def Let_def)

theorem timeline_keyset_pagination_witness:
  "db_constraints squeaks_db \<and> (0::int) \<le> 2
   \<and> map squeak_hash (get_timeline_squeak_entries 2 None squeaks_db) = [[0x0C], [0x0B]]
   \<and> list_all (\<lambda>e. entry_key e < (MAX_INT, MAX_INT, MAX_HASH))
        (get_timeline_squeak_entries 2 None squeaks_db)
   \<and> sorted_wrt (\<lambda>a b. entry_key a > entry_key b)
        (get_timeline_squeak_entries 2 None squeaks_db)
   \<and> int (length (get_timeline_squeak_entries 2 None squeaks_db)) \<le> 2
   \<and> map squeak_hash (timeline_pages (Suc (Suc (Suc 0))) 2 None squeaks_db)
       = [[0x0C], [0x0B], [0x0A]]
   \<and> distinct (timeline_pages (Suc (Suc (Suc 0))) 2 None squeaks_db)"
proof -
  have k: "last_key None = (MAX_INT, MAX_INT, MAX_HASH)"
    by (simp add: last_key_def)
  have l: "(0::int) \<le> 2" by simp
  have h1: "map squeak_hash (get_timeline_squeak_entries 2 None squeaks_db)
              = [[0x0C], [0x0B]]"
    by (simp add: squeaks_db_first_page squeak_hash_parse example_rows)
  have h2: "map squeak_hash (timeline_pages (Suc (Suc (Suc 0))) 2 None squeaks_db)
              = [[0x0C], [0x0B], [0x0A]]"
    by (simp only: squeaks_db_pages list.map squeak_hash_parse fst_conv example_rows)
  from timeline_keyset_pagination [OF squeaks_db_constraints,
      of 2 None "parse_squeak_entry (row_b, Some profile_bob)" "Suc (Suc (Suc 0))"]
  show ?thesis
    unfolding k list_all_iff using squeaks_db_constraints l h1 h2 by blast
qed

text \<open>
  Against C3 as stated, "at most \<open>limit\<close> results" for every \<open>limit\<close>: with \<open>limit = -1\<close>
  the timeline of the example store comes back whole, three entries.
\<close>

theorem timeline_negative_limit_counterexample:
  "map squeak_hash (get_timeline_squeak_entries (- 1) None squeaks_db)
     = [[0x0C], [0x0B], [0x0A]]
   \<and> \<not> int (length (get_timeline_squeak_entries (- 1) None squeaks_db)) \<le> - 1"
proof -
  have da: "distinct (map pf_address (profiles squeaks_db))"
    using squeaks_db_constraints by (simp add: db_constraints_def)
  have "get_timeline_squeak_entries (- 1) None squeaks_db =
     [parse_squeak_entry (row_c, Some profile_alice),
      parse_squeak_entry (row_b, Some profile_bob),
      parse_squeak_entry (row_a, Some profile_alice)]"
    unfolding get_timeline_rows [OF da] squeaks_db_timeline_rows
    by (simp add: profile_is_following_def example_profiles example_keys last_key_def
        MAX_INT_def order_by_desc_def sql_limit_def)
  then show ?thesis
    by (simp add: squeak_hash_parse example_rows)
qed

subsection \<open>Termination of the ancestor query\<close>

lemma ancestors_cte_returns:
  "(ancestors_step sqs ^^ n) w = [] \<Longrightarrow> \<exists>r. ancestors_cte sqs w = Some r"
proof (induction n arbitrary: w)
  case 0
  then show ?case by (simp add: ancestors_cte.simps)
next
  case (Suc n)
  show ?case
  proof (cases "w = []")
    case True
    then show ?thesis by (simp add: ancestors_cte.simps)
  next
    case False
    from Suc.prems have "(ancestors_step sqs ^^ n) (ancestors_step sqs w) = []"
      by (simp add: funpow_swap1)
    from Suc.IH [OF this] obtain r where "ancestors_cte sqs (ancestors_step sqs w) = Some r" ..
    with False show ?thesis
      by (subst ancestors_cte.simps) simp
  qed
qed

lemma ancestors_cte_reaches_end:
  assumes "ancestors_cte sqs w = Some r"
  shows "\<exists>n. (ancestors_step sqs ^^ n) w = []"
proof (rule ancestors_cte.raw_induct
    [where P = "\<lambda>sqs w r. \<exists>n. (ancestors_step sqs ^^ n) w = []", OF _ assms])
  fix cte :: "squeak_row list \<Rightarrow> ancestor_row list \<Rightarrow> ancestor_row list option"
    and sqs w y
  assume IH: "\<And>sqs w y. cte sqs w = Some y \<Longrightarrow> \<exists>n. (ancestors_step sqs ^^ n) w = []"
    and eq: "(if w = [] then Some []
              else Option.bind (cte sqs (ancestors_step sqs w)) (\<lambda>rest. Some (w @ rest)))
             = Some y"
  show "\<exists>n. (ancestors_step sqs ^^ n) w = []"
  proof (cases "w = []")
    case True
    then have "(ancestors_step sqs ^^ 0) w = []" by simp
    then show ?thesis by (rule exI)
  next
    case False
    with eq obtain rest where "cte sqs (ancestors_step sqs w) = Some rest"
      by (auto simp add: bind_eq_Some_conv)
    from IH [OF this] obtain n where "(ancestors_step sqs ^^ n) (ancestors_step sqs w) = []" ..
    then have "(ancestors_step sqs ^^ Suc n) w = []"
      by (simp add: funpow_swap1)
    then show ?thesis by (rule exI)
  qed
qed

lemma ancestors_cte_returns_iff:
  "(ancestors_cte sqs w \<noteq> None) = (\<exists>n. (ancestors_step sqs ^^ n) w = [])"
  using ancestors_cte_returns [where sqs = sqs and w = w]
    ancestors_cte_reaches_end [where sqs = sqs and w = w]
  by (cases "ancestors_cte sqs w") auto

lemma get_thread_ancestor_returns_iff:
  "(get_thread_ancestor_squeak_entries h d \<noteq> None) =
     (ancestors_cte (squeaks d) (ancestors_initial h (squeaks d)) \<noteq> None)"
  by (cases "ancestors_cte (squeaks d) (ancestors_initial h (squeaks d))")
     (simp_all add: get_thread_ancestor_squeak_entries_def Let_def)

lemma in_ancestors_step:
  "a' \<in> set (ancestors_step sqs w) \<Longrightarrow>
     \<exists>r \<in> set sqs. \<exists>a \<in> set w. fst a = Some (sq_hash r) \<and> fst a' = sq_hash_reply_sqk r"
  by (force simp add: ancestors_step_def)

lemma ancestors_step_empty:
  "(\<And>a r. a \<in> set w \<Longrightarrow> r \<in> set sqs \<Longrightarrow> fst a \<noteq> Some (sq_hash r)) \<Longrightarrow>
     ancestors_step sqs w = []"
  by (fastforce simp add: ancestors_step_def filter_empty_conv)

lemma ranked_walk_ends:
  assumes rk: "\<And>r h'. r \<in> set sqs \<Longrightarrow> sq_hash_reply_sqk r = Some h' \<Longrightarrow>
                 h' \<in> sq_hash ` set sqs \<Longrightarrow> rank h' < (rank (sq_hash r) :: nat)"
  shows "(\<And>a r. a \<in> set w \<Longrightarrow> r \<in> set sqs \<Longrightarrow> fst a = Some (sq_hash r) \<Longrightarrow>
            rank (sq_hash r) < m)
         \<Longrightarrow> (ancestors_step sqs ^^ Suc m) w = []"
proof (induction m arbitrary: w)
  case 0
  have "ancestors_step sqs w = []"
  proof (rule ancestors_step_empty)
    fix a r assume "a \<in> set w" "r \<in> set sqs"
    with 0 show "fst a \<noteq> Some (sq_hash r)" by fastforce
  qed
  then show ?case by simp
next
  case (Suc m)
  have "(ancestors_step sqs ^^ Suc m) (ancestors_step sqs w) = []"
  proof (rule Suc.IH)
    fix a' r'
    assume a': "a' \<in> set (ancestors_step sqs w)" and r': "r' \<in> set sqs"
      and eq: "fst a' = Some (sq_hash r')"
    from in_ancestors_step [OF a'] obtain r a where r: "r \<in> set sqs" and a: "a \<in> set w"
      and ar: "fst a = Some (sq_hash r)" and rep: "fst a' = sq_hash_reply_sqk r" by blast
    from rep eq have "sq_hash_reply_sqk r = Some (sq_hash r')" by simp
    from rk [OF r this] r' have 1: "rank (sq_hash r') < rank (sq_hash r)" by blast
    from Suc.prems [OF a r ar] have 2: "rank (sq_hash r) < Suc m" .
    from 1 2 show "rank (sq_hash r') < m" by simp
  qed
  then show ?case by (simp add: funpow_swap1)
qed

lemma ranked_walk_returns:
  assumes "\<And>r h'. r \<in> set sqs \<Longrightarrow> sq_hash_reply_sqk r = Some h' \<Longrightarrow>
                 h' \<in> sq_hash ` set sqs \<Longrightarrow> rank h' < (rank (sq_hash r) :: nat)"
  shows "ancestors_cte sqs w \<noteq> None"
proof -
  define m where "m = Suc (Max (insert 0 (rank ` sq_hash ` set sqs)))"
  have "rank (sq_hash r) < m" if "r \<in> set sqs" for r
  proof -
    from that have "rank (sq_hash r) \<in> insert 0 (rank ` sq_hash ` set sqs)" by blast
    then have "rank (sq_hash r) \<le> Max (insert 0 (rank ` sq_hash ` set sqs))"
      by (intro Max_ge) simp_all
    then show ?thesis by (simp add: m_def)
  qed
  then have "(ancestors_step sqs ^^ Suc m) w = []"
    using assms by (intro ranked_walk_ends [where rank = rank and sqs = sqs]) blast+
  then show ?thesis
    unfolding ancestors_cte_returns_iff by (rule exI)
qed

text \<open>
  C8, as the code has it. The recursive walk along \<open>hash_reply_sqk\<close> has no bound on
  its depth. \<open>get_thread_ancestor_squeak_entries\<close> returns if and only if some round of
  the walk is empty, which is when the walk has come to a squeak without a stored
  parent. That is so for every hash when the reply links among stored squeaks are
  acyclic, here: when some rank decreases along each of them.
\<close>

theorem ancestor_walk_returns_iff_chain_ends:
  "(get_thread_ancestor_squeak_entries h d \<noteq> None) =
     (\<exists>n. (ancestors_step (squeaks d) ^^ n) (ancestors_initial h (squeaks d)) = [])
   \<and> ((\<forall>r \<in> set (squeaks d). \<forall>h'. sq_hash_reply_sqk r = Some h' \<longrightarrow>
           h' \<in> sq_hash ` set (squeaks d) \<longrightarrow> rank h' < (rank (sq_hash r) :: nat))
        \<longrightarrow> get_thread_ancestor_squeak_entries h d \<noteq> None)"
proof (intro conjI impI)
  show "(get_thread_ancestor_squeak_entries h d \<noteq> None) =
     (\<exists>n. (ancestors_step (squeaks d) ^^ n) (ancestors_initial h (squeaks d)) = [])"
    unfolding get_thread_ancestor_returns_iff by (rule ancestors_cte_returns_iff)
next
  assume "\<forall>r \<in> set (squeaks d). \<forall>h'. sq_hash_reply_sqk r = Some h' \<longrightarrow>
           h' \<in> sq_hash ` set (squeaks d) \<longrightarrow> rank h' < rank (sq_hash r)"
  then have "ancestors_cte (squeaks d) (ancestors_initial h (squeaks d)) \<noteq> None"
    by (intro ranked_walk_returns [where rank = rank]) blast
  then show "get_thread_ancestor_squeak_entries h d \<noteq> None"
    unfolding get_thread_ancestor_returns_iff .
qed

lemma loop_step:
  "(ancestors_step [row_loop] ^^ n) [(Some [0x01], k)] = [(Some [0x01], k + int n)]"
proof (induction n arbitrary: k)
  case 0
  then show ?case by simp
next
  case (Suc n)
  have "ancestors_step [row_loop] [(Some [0x01], k)] = [(Some [0x01], k + 1)]"
    by (simp add: ancestors_step_def row_loop_def row_a_def)
  then show ?case
    using Suc.IH [of "k + 1"] by (simp add: funpow_swap1)
qed

text \<open>
  Against C8 as stated: in a store whose one squeak names itself as its parent, the
  ancestor query of that squeak never returns.
\<close>

theorem ancestor_walk_loop_counterexample:
  "get_thread_ancestor_squeak_entries [0x01] loop_db = None"
proof -
  have i: "ancestors_initial [0x01] [row_loop] = [(Some [0x01], 0)]"
    by (simp add: ancestors_initial_def row_loop_def row_a_def)
  have s: "squeaks loop_db = [row_loop]"
    by (simp add: loop_db_def empty_db_def)
  have "\<not> (\<exists>n. (ancestors_step (squeaks loop_db) ^^ n)
                   (ancestors_initial [0x01] (squeaks loop_db)) = [])"
    unfolding s i loop_step by simp
  then have "ancestors_cte (squeaks loop_db) (ancestors_initial [0x01] (squeaks loop_db)) = None"
    unfolding ancestors_cte_returns_iff [symmetric] by simp
  then show ?thesis
    by (simp add: get_thread_ancestor_squeak_entries_def)
qed

lemma example_replies:
  "sq_hash_reply_sqk row_a = None" "sq_hash_reply_sqk row_b = None"
  "sq_hash_reply_sqk row_c = Some [0x0B]"
  by (simp_all add: row_a_def row_b_def row_c_def)

lemma squeaks_db_walk:
  "ancestors_cte [row_a, row_b, row_c] (ancestors_initial [0x0C] [row_a, row_b, row_c])
     = Some [(Some [0x0C], 0), (Some [0x0B], 1), (None, 2)]"
proof -
  have 0: "ancestors_initial [0x0C] [row_a, row_b, row_c] = [(Some [0x0C], 0)]"
    by (simp add: ancestors_initial_def example_rows)
  have 1: "ancestors_step [row_a, row_b, row_c] [(Some [0x0C], 0)] = [(Some [0x0B], 1)]"
    by (simp add: ancestors_step_def example_rows example_replies)
  have 2: "ancestors_step [row_a, row_b, row_c] [(Some [0x0B], 1)] = [(None, 2)]"
    by (simp add: ancestors_step_def example_rows example_replies)
  have 3: "ancestors_step [row_a, row_b, row_c] [(None, 2)] = []"
    by (simp add: ancestors_step_def)
  have c3: "ancestors_cte [row_a, row_b, row_c] [] = Some []"
    by (subst ancestors_cte.simps) simp
  have c2: "ancestors_cte [row_a, row_b, row_c] [(None, 2)] = Some [(None, 2)]"
    by (subst ancestors_cte.simps) (simp add: 3 c3)
  have c1: "ancestors_cte [row_a, row_b, row_c] [(Some [0x0B], 1)]
              = Some [(Some [0x0B], 1), (None, 2)]"
    by (subst ancestors_cte.simps) (simp add: 2 c2)
  show ?thesis
    unfolding 0 by (subst ancestors_cte.simps) (simp add: 1 c1)
qed

lemma squeaks_db_ancestors:
  "map_option (map squeak_hash) (get_thread_ancestor_squeak_entries [0x0C] squeaks_db)
     = Some [[0x0B], [0x0C]]"
proof -
  have da: "distinct (map pf_address (profiles squeaks_db))"
    using squeaks_db_constraints by (simp add: db_constraints_def)
  have j: "join_ancestors [row_a, row_b, row_c] [(Some [0x0C], 0), (Some [0x0B], 1), (None, 2)]
             = [(row_b, (Some [0x0B], 1)), (row_c, (Some [0x0C], 0))]"
    by (simp add: join_ancestors_def example_rows)
  show ?thesis
    unfolding get_thread_ancestor_squeak_entries_def outerjoin_profiles_unique [OF da]
    by (simp add: squeaks_db_tables squeaks_db_walk j order_by_desc_def squeak_hash_parse
        example_rows comp_def)
qed

theorem ancestor_walk_returns_iff_chain_ends_witness:
  "get_thread_ancestor_squeak_entries [0x0C] squeaks_db \<noteq> None
   \<and> map_option (map squeak_hash) (get_thread_ancestor_squeak_entries [0x0C] squeaks_db)
       = Some [[0x0B], [0x0C]]"
proof -
  let ?rank = "\<lambda>h :: bytes. if h = [0x0C] then Suc 0 else 0"
  have "\<forall>r \<in> set (squeaks squeaks_db). \<forall>h'. sq_hash_reply_sqk r = Some h' \<longrightarrow>
           h' \<in> sq_hash ` set (squeaks squeaks_db) \<longrightarrow> ?rank h' < ?rank (sq_hash r)"
    by (simp add: squeaks_db_tables example_rows example_replies)
  with ancestor_walk_returns_iff_chain_ends [of "[0x0C]" squeaks_db ?rank]
  have "get_thread_ancestor_squeak_entries [0x0C] squeaks_db \<noteq> None" by blast
  with squeaks_db_ancestors show ?thesis by (intro conjI)
qed

subsection \<open>Text search\<close>

lemma lower_examples:
  "lower ''%a_c%'' = ''%a_c%''" "lower ''abc'' = ''abc''" "lower ''a_c'' = ''a_c''"
  "lower ''Hello World'' = ''hello world''"
  by code_simp+

lemma like_example: "like ''%a_c%'' ''abc''" "\<not> like ''%a_c%'' ''hello world''"
  by simp_all

lemma not_substring_example: "\<not> is_substring ''a_c'' ''abc''"
  by simp

lemma lower_char_wild: "lower_char CHR ''%'' = CHR ''%''" "lower_char CHR ''_'' = CHR ''_''"
  by (simp_all add: lower_char_def)

lemma lower_char_not_wild:
  "lower_char c = CHR ''%'' \<Longrightarrow> c = CHR ''%''" "lower_char c = CHR ''_'' \<Longrightarrow> c = CHR ''_''"
proof -
  have up: "of_char (lower_char c) = (of_char c + 32 :: nat)"
    if "(65::nat) \<le> of_char c" "of_char c \<le> (90::nat)"
    using that by (simp add: lower_char_def)
  show "lower_char c = CHR ''%'' \<Longrightarrow> c = CHR ''%''"
  proof (cases "(65::nat) \<le> of_char c \<and> of_char c \<le> (90::nat)")
    case True
    assume "lower_char c = CHR ''%''"
    then have "of_char (lower_char c) = (37::nat)" by simp
    with up True show ?thesis by simp
  next
    case False
    assume "lower_char c = CHR ''%''"
    with False show ?thesis by (auto simp add: lower_char_def split: if_splits)
  qed
  show "lower_char c = CHR ''_'' \<Longrightarrow> c = CHR ''_''"
  proof (cases "(65::nat) \<le> of_char c \<and> of_char c \<le> (90::nat)")
    case True
    assume "lower_char c = CHR ''_''"
    then have "of_char (lower_char c) = (95::nat)" by simp
    with up True show ?thesis by simp
  next
    case False
    assume "lower_char c = CHR ''_''"
    with False show ?thesis by (auto simp add: lower_char_def split: if_splits)
  qed
qed

lemma like_prefix:
  "CHR ''%'' \<notin> set ps \<Longrightarrow> CHR ''_'' \<notin> set ps \<Longrightarrow> like (ps @ ''%'') t = is_prefix ps t"
proof (induction ps t rule: is_prefix.induct)
  case (1 t)
  show ?case by (induction t) simp_all
next
  case (2 a s)
  then show ?case by auto
next
  case (3 a s b t)
  then show ?case by auto
qed

lemma like_substring:
  assumes "CHR ''%'' \<notin> set s" "CHR ''_'' \<notin> set s"
  shows "like (''%'' @ s @ ''%'') t = is_substring s t"
proof (induction t)
  case Nil
  from like_prefix [OF assms, of "[]"] show ?case by (cases s) simp_all
next
  case (Cons b t)
  from like_prefix [OF assms, of "b # t"] Cons show ?case by simp
qed

lemma lower_no_wildcards:
  assumes "CHR ''%'' \<notin> set s" "CHR ''_'' \<notin> set s"
  shows "CHR ''%'' \<notin> set (lower s) \<and> CHR ''_'' \<notin> set (lower s)"
proof (intro conjI notI)
  assume "CHR ''%'' \<in> set (lower s)"
  then obtain c where "c \<in> set s" "lower_char c = CHR ''%''"
    by (force simp add: lower_def)
  with lower_char_not_wild(1) [of c] assms show False by simp
next
  assume "CHR ''_'' \<in> set (lower s)"
  then obtain c where "c \<in> set s" "lower_char c = CHR ''_''"
    by (force simp add: lower_def)
  with lower_char_not_wild(2) [of c] assms show False by simp
qed

lemma ilike_substring_without_wildcards:
  assumes "CHR ''%'' \<notin> set search_text" "CHR ''_'' \<notin> set search_text"
  shows "ilike (Some text) (''%'' @ search_text @ ''%'') = spec_text_match search_text text"
proof -
  have "lower (''%'' @ search_text @ ''%'') = ''%'' @ lower search_text @ ''%''"
    by (simp add: lower_def lower_char_wild)
  with lower_no_wildcards [OF assms] like_substring [of "lower search_text" "lower text"]
  show ?thesis by (simp add: ilike_def spec_text_match_def)
qed

text \<open>
  C7 at the search text \<open>a_c\<close>: the \<open>_\<close> reaches \<open>ILIKE\<close> as a wildcard, so the search
  returns the squeaks \<open>row_c\<close> and \<open>row_a\<close>, whose content is \<open>abc\<close>, although \<open>a_c\<close> is
  not a substring of \<open>abc\<close>. (Without \<open>%\<close> and \<open>_\<close> in the search text, the test the
  query applies is the substring match: \<open>ilike_substring_without_wildcards\<close>.)
\<close>

theorem text_search_wildcard_evaluation:
  "map squeak_hash (get_squeak_entries_for_text_search ''a_c'' 10 None squeaks_db)
     = [[0x0C], [0x0A]]
   \<and> sq_content row_a = Some ''abc'' \<and> sq_content row_c = Some ''abc''
   \<and> \<not> spec_text_match ''a_c'' ''abc''"
proof -
  have da: "distinct (map pf_address (profiles squeaks_db))"
    using squeaks_db_constraints by (simp add: db_constraints_def)
  have m: "ilike (Some ''abc'') ''%a_c%''" "\<not> ilike (Some ''Hello World'') ''%a_c%''"
    by (simp_all add: ilike_def lower_examples)
  have "get_squeak_entries_for_text_search ''a_c'' 10 None squeaks_db =
          [parse_squeak_entry (row_c, Some profile_alice),
           parse_squeak_entry (row_a, Some profile_alice)]"
    unfolding get_squeak_entries_for_text_search_def Let_def
      outerjoin_profiles_unique [OF da, of id, simplified] squeaks_db_timeline_rows
    by (simp add: example_rows m example_keys last_key_def MAX_INT_def order_by_desc_def
        sql_limit_def)
  moreover have "\<not> spec_text_match ''a_c'' ''abc''"
    by (simp add: spec_text_match_def lower_examples)
  ultimately show ?thesis
    by (simp add: squeak_hash_parse example_rows)
qed

end
